theory Spec2Isabelle
  imports Complex_Main "HOL-Library.Log_Nat"
begin

section \<open>The Go library functions the scraper calls\<close>

text \<open>
  \<^verbatim>\<open>scraper.go\<close> calls \<^verbatim>\<open>strings.Split\<close>, \<^verbatim>\<open>time.Parse\<close>, \<^verbatim>\<open>Time.Unix\<close> and
  \<^verbatim>\<open>strconv.ParseFloat\<close>. They are modelled here as executable functions on byte
  strings (\<^typ>\<open>string\<close>), each returning Go's pair of a value and an error. The
  metrics library checks every label value with \<^verbatim>\<open>utf8.ValidString\<close>, modelled here too.
\<close>

datatype error =
    ParseError string      \<comment> \<open>\<^verbatim>\<open>*time.ParseError\<close>, with the value that did not parse\<close>
  | ErrSyntax string       \<comment> \<open>\<^verbatim>\<open>*strconv.NumError\<close> wrapping \<^verbatim>\<open>ErrSyntax\<close>\<close>
  | ErrRange string        \<comment> \<open>\<^verbatim>\<open>*strconv.NumError\<close> wrapping \<^verbatim>\<open>ErrRange\<close>\<close>
  | LDAPError string       \<comment> \<open>an error of the directory client (dial, bind, search)\<close>

subsection \<open>\<^verbatim>\<open>strings.Split\<close> with a one-byte separator\<close>

text \<open>
  \<^verbatim>\<open>strings.Split(s, "#")\<close> returns the substrings between the separators: one more
  element than there are separators, so never an empty slice (\<^verbatim>\<open>Split("", "#")\<close> is
  \<^verbatim>\<open>[""]\<close>).
\<close>

fun strings_Split :: "string \<Rightarrow> char \<Rightarrow> string list" where
  "strings_Split [] sep = [[]]"
| "strings_Split (c # cs) sep =
     (if c = sep then [] # strings_Split cs sep
      else (case strings_Split cs sep of
              [] \<Rightarrow> [[c]]
            | f # fs \<Rightarrow> (c # f) # fs))"

subsection \<open>float64\<close>

text \<open>
  A float64 is a finite binary64 number, given by the rational it denotes, an infinity
  (\<open>Inf True\<close> is the negative one) or NaN. The sign of zero is not kept.
  \<open>f64_round\<close> rounds a rational to the nearest binary64 number, ties to even, and to
  an infinity beyond the largest finite one.
\<close>

datatype float64 = Fin rat | Inf bool | NaN

definition pow2 :: "int \<Rightarrow> rat" where
  "pow2 e = (if 0 \<le> e then 2 ^ nat e else 1 / 2 ^ nat (- e))"

definition ilog2 :: "rat \<Rightarrow> int" where
  \<comment> \<open>\<open>\<lfloor>log\<^sub>2 a\<rfloor>\<close> for \<open>0 < a\<close>\<close>
  "ilog2 a = (let (p, d) = quotient_of a; e = bitlen p - bitlen d
              in if pow2 e \<le> a then e else e - 1)"

definition round_half_even :: "rat \<Rightarrow> int" where
  "round_half_even r = (let f = \<lfloor>r\<rfloor>; d = r - of_int f
     in if d < 1 / 2 then f else if 1 / 2 < d then f + 1
        else if even f then f else f + 1)"

definition f64_round :: "rat \<Rightarrow> float64" where
  "f64_round x = (if x = 0 then Fin 0 else
     let a = \<bar>x\<bar>;
         q = pow2 (max (ilog2 a) (- 1022) - 52);
         r = of_int (round_half_even (a / q)) * q
     in if 2 ^ 1024 \<le> r then Inf (x < 0) else Fin (if x < 0 then - r else r))"

definition float64_of_int64 :: "int \<Rightarrow> float64" where
  \<comment> \<open>the conversion \<^verbatim>\<open>float64(n)\<close> of an int64\<close>
  "float64_of_int64 n = f64_round (of_int n)"

fun f64_sub :: "float64 \<Rightarrow> float64 \<Rightarrow> float64" where
  "f64_sub (Fin a) (Fin b) = f64_round (a - b)"
| "f64_sub NaN _ = NaN"
| "f64_sub _ NaN = NaN"
| "f64_sub (Inf s) (Inf t) = (if s = t then NaN else Inf s)"
| "f64_sub (Inf s) (Fin _) = Inf s"
| "f64_sub (Fin _) (Inf t) = Inf (\<not> t)"

subsection \<open>\<^verbatim>\<open>strconv.ParseFloat(s, 64)\<close>\<close>

definition isDigit :: "char \<Rightarrow> bool" where
  "isDigit c = (c \<in> set ''0123456789'')"

definition isHexLetter :: "char \<Rightarrow> bool" where
  "isHexLetter c = (c \<in> set ''abcdefABCDEF'')"

definition digitVal :: "char \<Rightarrow> int" where
  "digitVal c = of_char c - 48"

definition hexVal :: "char \<Rightarrow> int" where
  "hexVal c = (if isDigit c then digitVal c
               else if c \<in> set ''abcdef'' then of_char c - 87 else of_char c - 55)"

definition lower :: "char \<Rightarrow> char" where
  \<comment> \<open>\<^verbatim>\<open>c | ('x' - 'X')\<close>, used only to compare with a lower-case letter\<close>
  "lower c = (if c \<in> set ''ABCDEFGHIJKLMNOPQRSTUVWXYZ'' then char_of (of_char c + (32::nat)) else c)"

fun commonPrefixLenIgnoreCase :: "string \<Rightarrow> string \<Rightarrow> nat" where
  "commonPrefixLenIgnoreCase (c # s) (p # prefix) =
     (if lower c = p then Suc (commonPrefixLenIgnoreCase s prefix) else 0)"
| "commonPrefixLenIgnoreCase _ _ = 0"

definition infinityLen :: "string \<Rightarrow> nat option" where
  "infinityLen s = (let n = commonPrefixLenIgnoreCase s ''infinity'';
                        n = (if 3 < n \<and> n < 8 then 3 else n)
                    in if n = 3 \<or> n = 8 then Some n else None)"

definition special :: "string \<Rightarrow> (float64 \<times> nat) option" where
  \<comment> \<open>the spellings of the infinities and of NaN, with the number of bytes read\<close>
  "special s = (case s of
       [] \<Rightarrow> None
     | c # t \<Rightarrow>
         if c = CHR ''+'' \<or> c = CHR ''-'' then
           map_option (\<lambda>n. (Inf (c = CHR ''-''), n + 1)) (infinityLen t)
         else if c = CHR ''i'' \<or> c = CHR ''I'' then
           map_option (\<lambda>n. (Inf False, n)) (infinityLen s)
         else if c = CHR ''n'' \<or> c = CHR ''N'' then
           (if commonPrefixLenIgnoreCase s ''nan'' = 3 then Some (NaN, 3) else None)
         else None)"

text \<open>
  The mantissa loop of \<^verbatim>\<open>readFloat\<close>: digits (hexadecimal ones in base 16), at most
  one point, underscores anywhere. It returns the mantissa as an integer, the
  number of digits after the point, whether a digit was seen, and the rest of the input.
\<close>

fun readMantissa :: "bool \<Rightarrow> bool \<Rightarrow> bool \<Rightarrow> int \<Rightarrow> int \<Rightarrow> string
                     \<Rightarrow> int \<times> int \<times> bool \<times> string" where
  "readMantissa hex sawdot sawdigits mant nfrac [] = (mant, nfrac, sawdigits, [])"
| "readMantissa hex sawdot sawdigits mant nfrac (c # s) =
     (if c = CHR ''_'' then readMantissa hex sawdot sawdigits mant nfrac s
      else if c = CHR ''.'' then
        (if sawdot then (mant, nfrac, sawdigits, c # s)
         else readMantissa hex True sawdigits mant nfrac s)
      else if isDigit c then
        readMantissa hex sawdot True ((if hex then 16 else 10) * mant + digitVal c)
          (if sawdot then nfrac + 1 else nfrac) s
      else if hex \<and> isHexLetter c then
        readMantissa hex sawdot True (16 * mant + hexVal c)
          (if sawdot then nfrac + 1 else nfrac) s
      else (mant, nfrac, sawdigits, c # s))"

fun readExpDigits :: "int \<Rightarrow> string \<Rightarrow> int \<times> string" where
  "readExpDigits e [] = (e, [])"
| "readExpDigits e (c # s) =
     (if c = CHR ''_'' then readExpDigits e s
      else if isDigit c then readExpDigits (if e < 10000 then e * 10 + digitVal c else e) s
      else (e, c # s))"

definition readExponent :: "string \<Rightarrow> (int \<times> string) option" where
  \<comment> \<open>after the exponent character: an optional sign, a digit, then digits and underscores\<close>
  "readExponent s = (case s of
       [] \<Rightarrow> None
     | c # t \<Rightarrow>
         let (neg, u) = (if c = CHR ''+'' then (False, t)
                         else if c = CHR ''-'' then (True, t) else (False, s))
         in (case u of
               [] \<Rightarrow> None
             | d # _ \<Rightarrow>
                 if isDigit d then
                   (let (e, rest) = readExpDigits 0 u
                    in Some (if neg then - e else e, rest))
                 else None))"

fun underscoreScan :: "bool \<Rightarrow> char \<Rightarrow> string \<Rightarrow> bool" where
  "underscoreScan hex saw [] = (saw \<noteq> CHR ''_'')"
| "underscoreScan hex saw (c # s) =
     (if isDigit c \<or> hex \<and> isHexLetter c then underscoreScan hex (CHR ''0'') s
      else if c = CHR ''_'' then
        (if saw \<noteq> CHR ''0'' then False else underscoreScan hex (CHR ''_'') s)
      else if saw = CHR ''_'' then False
      else underscoreScan hex (CHR ''!'') s)"

definition underscoreOK :: "string \<Rightarrow> bool" where
  \<comment> \<open>an underscore must stand between digits, or between a base prefix and a digit\<close>
  "underscoreOK s0 =
     (let s = (case s0 of c # t \<Rightarrow> if c = CHR ''-'' \<or> c = CHR ''+'' then t else s0 | [] \<Rightarrow> s0)
      in case s of
           c # d # t \<Rightarrow>
             if c = CHR ''0'' \<and> lower d \<in> set ''box''
             then underscoreScan (lower d = CHR ''x'') (CHR ''0'') t
             else underscoreScan False (CHR ''^'') s
         | _ \<Rightarrow> underscoreScan False (CHR ''^'') s)"

definition readFloat :: "string \<Rightarrow> (rat \<times> nat) option" where
  \<comment> \<open>the exact value of the longest floating-point literal that starts \<open>s\<close>, and its length\<close>
  "readFloat s = (case s of
       [] \<Rightarrow> None
     | c # t \<Rightarrow>
         let (neg, s1) = (if c = CHR ''+'' then (False, t)
                          else if c = CHR ''-'' then (True, t) else (False, s));
             hex = (case s1 of z # x # _ # _ \<Rightarrow> z = CHR ''0'' \<and> lower x = CHR ''x'' | _ \<Rightarrow> False);
             s2 = (if hex then drop 2 s1 else s1);
             (mant, nfrac, sawdigits, s3) = readMantissa hex False False 0 0 s2
         in if \<not> sawdigits then None
            else
              (let ex = (case s3 of
                           [] \<Rightarrow> if hex then None else Some (0, s3)
                         | e # u \<Rightarrow>
                             if lower e = (if hex then CHR ''p'' else CHR ''e'')
                             then readExponent u
                             else if hex then None else Some (0, s3))
               in case ex of
                    None \<Rightarrow> None
                  | Some (e, s4) \<Rightarrow>
                      let n = length s - length s4;
                          v = (if hex then of_int mant * pow2 (e - 4 * nfrac)
                               else if nfrac \<le> e then of_int mant * 10 ^ nat (e - nfrac)
                               else of_int mant / 10 ^ nat (nfrac - e))
                      in if CHR ''_'' \<in> set (take n s) \<and> \<not> underscoreOK (take n s) then None
                         else Some (if neg then - v else v, n)))"

definition ParseFloat :: "string \<Rightarrow> float64 \<times> error option" where
  "ParseFloat s = (case special s of
       Some (v, n) \<Rightarrow> if n = length s then (v, None) else (Fin 0, Some (ErrSyntax s))
     | None \<Rightarrow>
         (case readFloat s of
            None \<Rightarrow> (Fin 0, Some (ErrSyntax s))
          | Some (v, n) \<Rightarrow>
              if n \<noteq> length s then (Fin 0, Some (ErrSyntax s))
              else (case f64_round v of
                      Inf b \<Rightarrow> (Inf b, Some (ErrRange s))
                    | r \<Rightarrow> (r, None))))"

subsection \<open>\<^verbatim>\<open>time.Parse\<close> with the layout \<^verbatim>\<open>20060102150405.999999Z\<close>, and \<^verbatim>\<open>Time.Unix\<close>\<close>

text \<open>
  The layout asks for a four-digit year, a two-digit month and day, an hour, a two-digit
  minute and second, an optional fraction of a second (a point or a comma followed by
  digits, any number of them, as the current Go library reads it) and the letter Z, with
  nothing after it. The month, the hour, the minute and the second are range-checked as
  they are read, the day against the month once everything is read. On error the result
  is the zero \<open>Time\<close>.
\<close>

record Time =
  year :: int
  month :: int
  day :: int
  hour :: int
  minute :: int
  second :: int
  nsec :: int

definition zeroTime :: Time where
  \<comment> \<open>\<^verbatim>\<open>Time{}\<close>: January 1, year 1, 00:00:00 UTC\<close>
  "zeroTime = \<lparr>year = 1, month = 1, day = 1, hour = 0, minute = 0, second = 0, nsec = 0\<rparr>"

definition getnum :: "string \<Rightarrow> bool \<Rightarrow> (int \<times> string) option" where
  \<comment> \<open>one or two digits; two of them when \<open>fixed\<close>\<close>
  "getnum s fixed = (case s of
       [] \<Rightarrow> None
     | c # t \<Rightarrow>
         if \<not> isDigit c then None
         else (case t of
                 [] \<Rightarrow> if fixed then None else Some (digitVal c, t)
               | d # u \<Rightarrow>
                   if isDigit d then Some (digitVal c * 10 + digitVal d, u)
                   else if fixed then None else Some (digitVal c, t)))"

definition getyear :: "string \<Rightarrow> (int \<times> string) option" where
  "getyear s = (if length s < 4 \<or> \<not> list_all isDigit (take 4 s) then None
                else Some (foldl (\<lambda>n c. n * 10 + digitVal c) 0 (take 4 s), drop 4 s))"

definition getfrac :: "string \<Rightarrow> int \<times> string" where
  \<comment> \<open>the fraction, in nanoseconds from its first nine digits, when there is one\<close>
  "getfrac s = (case s of
       c # d # t \<Rightarrow>
         if (c = CHR ''.'' \<or> c = CHR '','') \<and> isDigit d then
           (let ds = take 9 (takeWhile isDigit (d # t))
            in (foldl (\<lambda>n c. n * 10 + digitVal c) 0 ds * 10 ^ (9 - length ds),
                dropWhile isDigit (d # t)))
         else (0, s)
     | _ \<Rightarrow> (0, s))"

definition isLeap :: "int \<Rightarrow> bool" where
  "isLeap y = (y mod 4 = 0 \<and> (y mod 100 \<noteq> 0 \<or> y mod 400 = 0))"

definition daysIn :: "int \<Rightarrow> int \<Rightarrow> int" where
  "daysIn m y = (if m = 2 then (if isLeap y then 29 else 28)
                 else if m \<in> {4, 6, 9, 11} then 30 else 31)"

definition parseFields :: "string \<Rightarrow> Time option" where
  "parseFields v =
     Option.bind (getyear v) (\<lambda>(y, v1).
     Option.bind (getnum v1 True) (\<lambda>(mo, v2).
     if mo \<le> 0 \<or> 12 < mo then None else
     Option.bind (getnum v2 True) (\<lambda>(d, v3).
     Option.bind (getnum v3 False) (\<lambda>(h, v4).
     if h < 0 \<or> 24 \<le> h then None else
     Option.bind (getnum v4 True) (\<lambda>(mi, v5).
     if mi < 0 \<or> 60 \<le> mi then None else
     Option.bind (getnum v5 True) (\<lambda>(sc, v6).
     if sc < 0 \<or> 60 \<le> sc then None else
     (let (ns, v7) = getfrac v6 in
      if v7 \<noteq> ''Z'' then None
      else if d < 1 \<or> daysIn mo y < d then None
      else Some \<lparr>year = y, month = mo, day = d, hour = h, minute = mi, second = sc,
                  nsec = ns\<rparr>)))))))"

definition time_Parse :: "string \<Rightarrow> Time \<times> error option" where
  "time_Parse v = (case parseFields v of
                     None \<Rightarrow> (zeroTime, Some (ParseError v))
                   | Some t \<Rightarrow> (t, None))"

definition daysSinceEpoch :: "int \<Rightarrow> int \<Rightarrow> int \<Rightarrow> int" where
  \<comment> \<open>days from 1970-01-01 to the given day of the proleptic Gregorian calendar\<close>
  "daysSinceEpoch y m d =
     (let y1 = (if m \<le> 2 then y - 1 else y);
          era = y1 div 400;
          yoe = y1 - era * 400;
          doy = (153 * (if 2 < m then m - 3 else m + 9) + 2) div 5 + d - 1;
          doe = yoe * 365 + yoe div 4 - yoe div 100 + doy
      in era * 146097 + doe - 719468)"

definition Unix :: "Time \<Rightarrow> int" where
  "Unix t = daysSinceEpoch (year t) (month t) (day t) * 86400
            + hour t * 3600 + minute t * 60 + second t"

subsection \<open>\<^verbatim>\<open>utf8.ValidString\<close>\<close>

text \<open>
  A string is valid UTF-8 when it is a sequence of well-formed encodings: one byte below
  \<open>0x80\<close>; a lead byte \<open>0xC2\<close> to \<open>0xDF\<close> and one continuation byte (\<open>0x80\<close> to
  \<open>0xBF\<close>); a lead byte \<open>0xE0\<close> to \<open>0xEF\<close> and two continuation bytes; a lead byte
  \<open>0xF0\<close> to \<open>0xF4\<close> and three. The first continuation byte is restricted after the lead
  bytes \<open>0xE0\<close>, \<open>0xED\<close>, \<open>0xF0\<close> and \<open>0xF4\<close>, which excludes overlong encodings,
  surrogates and code points above \<open>U+10FFFF\<close>.
\<close>

definition continuation :: "nat \<Rightarrow> bool" where
  "continuation b = (128 \<le> b \<and> b \<le> 191)"

fun validBytes :: "nat list \<Rightarrow> bool" where
  "validBytes [] = True"
| "validBytes (b # bs) =
     (if b < 128 then validBytes bs
      else if 194 \<le> b \<and> b \<le> 223 then
        (case bs of
           c # r \<Rightarrow> continuation c \<and> validBytes r
         | _ \<Rightarrow> False)
      else if 224 \<le> b \<and> b \<le> 239 then
        (case bs of
           c # d # r \<Rightarrow>
             (if b = 224 then 160 else 128) \<le> c \<and> c \<le> (if b = 237 then 159 else 191)
             \<and> continuation d \<and> validBytes r
         | _ \<Rightarrow> False)
      else if 240 \<le> b \<and> b \<le> 244 then
        (case bs of
           c # d # e # r \<Rightarrow>
             (if b = 240 then 144 else 128) \<le> c \<and> c \<le> (if b = 244 then 143 else 191)
             \<and> continuation d \<and> continuation e \<and> validBytes r
         | _ \<Rightarrow> False)
      else False)"

definition utf8_ValidString :: "string \<Rightarrow> bool" where
  "utf8_ValidString s = validBytes (map of_char s)"

section \<open>The scraper's data\<close>

text \<open>
  An index that is out of range panics, and nothing in \<^verbatim>\<open>scraper.go\<close> recovers from a
  panic: the process ends. A function that can panic returns a \<open>res\<close>.
\<close>

datatype 'a res = Panic | Ret 'a

definition index :: "'a list \<Rightarrow> nat \<Rightarrow> 'a res" where
  \<comment> \<open>\<^verbatim>\<open>xs[i]\<close>\<close>
  "index xs i = (if i < length xs then Ret (xs ! i) else Panic)"

subsection \<open>Constants\<close>

definition baseDN_const :: string where "baseDN_const = ''cn=Monitor''"
definition opsBaseDN :: string where "opsBaseDN = ''cn=Operations,cn=Monitor''"
definition monitorCounterObject :: string where "monitorCounterObject = ''monitorCounterObject''"
definition monitorCounter :: string where "monitorCounter = ''monitorCounter''"
definition monitoredObject :: string where "monitoredObject = ''monitoredObject''"
definition monitoredInfo :: string where "monitoredInfo = ''monitoredInfo''"
definition monitorOperation :: string where "monitorOperation = ''monitorOperation''"
definition monitorOpCompleted :: string where "monitorOpCompleted = ''monitorOpCompleted''"
definition monitorReplicationFilter :: string where "monitorReplicationFilter = ''contextCSN''"
definition monitorReplication :: string where "monitorReplication = ''monitorReplication''"

subsection \<open>Query descriptors\<close>

text \<open>
  The four gauge vectors are named by a datatype, and so are the three functions a
  descriptor's \<^verbatim>\<open>setData\<close> can hold. The scrape counter is a field of the state.
\<close>

datatype gauge =
    monitoredObjectGauge        \<comment> \<open>labels: dn\<close>
  | monitorCounterObjectGauge   \<comment> \<open>labels: dn\<close>
  | monitorOperationGauge       \<comment> \<open>labels: dn\<close>
  | monitorReplicationGauge     \<comment> \<open>labels: id, type\<close>

datatype setter = setValue_fn | setReplicationValue_fn | setReplicationDelayValue_fn

record query =
  baseDN :: string
  searchFilter :: string
  searchAttr :: string
  metric :: gauge
  setData :: setter
  RepolicateResult :: float64

definition objectClass :: "string \<Rightarrow> string" where
  "objectClass name = ''(objectClass='' @ name @ '')''"

definition queries_init :: "query list" where
  \<comment> \<open>the initial value of the package variable \<^verbatim>\<open>queries\<close>\<close>
  "queries_init = [
     \<lparr>baseDN = baseDN_const, searchFilter = objectClass monitoredObject,
      searchAttr = monitoredInfo, metric = monitoredObjectGauge,
      setData = setValue_fn, RepolicateResult = Fin 0\<rparr>,
     \<lparr>baseDN = baseDN_const, searchFilter = objectClass monitorCounterObject,
      searchAttr = monitorCounter, metric = monitorCounterObjectGauge,
      setData = setValue_fn, RepolicateResult = Fin 0\<rparr>,
     \<lparr>baseDN = opsBaseDN, searchFilter = objectClass monitorOperation,
      searchAttr = monitorOpCompleted, metric = monitorOperationGauge,
      setData = setValue_fn, RepolicateResult = Fin 0\<rparr>,
     \<lparr>baseDN = opsBaseDN, searchFilter = objectClass monitorOperation,
      searchAttr = monitorOpCompleted, metric = monitorOperationGauge,
      setData = setValue_fn, RepolicateResult = Fin 0\<rparr>]"

subsection \<open>Directory entries\<close>

record Entry =
  DN :: string
  Attributes :: "(string \<times> string list) list"

fun GetAttributeValues :: "(string \<times> string list) list \<Rightarrow> string \<Rightarrow> string list" where
  "GetAttributeValues [] attribute = []"
| "GetAttributeValues ((name, vals) # attrs) attribute =
     (if name = attribute then vals else GetAttributeValues attrs attribute)"

definition GetAttributeValue :: "Entry \<Rightarrow> string \<Rightarrow> string" where
  \<comment> \<open>the first value of the first attribute of that name, or the empty string\<close>
  "GetAttributeValue e attribute =
     (case GetAttributeValues (Attributes e) attribute of [] \<Rightarrow> [] | v # _ \<Rightarrow> v)"

subsection \<open>The state a cycle reads and writes\<close>

datatype level = InfoLevel | WarnLevel | ErrorLevel

record log_entry =
  Level :: level
  Message :: string
  Data :: "(string \<times> string) list"
  err :: "error option"

datatype net_event =
    EvDial string string                 \<comment> \<open>network, address\<close>
  | EvBind string string string          \<comment> \<open>address, user, password\<close>
  | EvSearch string string string string \<comment> \<open>address, base DN, filter, attribute\<close>
  | EvClose string                       \<comment> \<open>address\<close>

text \<open>
  \<open>queries\<close> is the package variable, a slice of pointers: position \<open>i\<close> holds the
  descriptor the \<open>i\<close>-th pointer refers to, and a write through that pointer updates
  position \<open>i\<close>. \<open>gauges\<close> holds the value last set for each gauge and label tuple,
  \<open>scrapeCounter\<close> the number of increments for each label. \<open>logs\<close> and \<open>net\<close> record,
  in order, what was logged and what was asked of the directory servers.


  \<^verbatim>\<open>WithLabelValues\<close> panics when a gauge is given another number of label values than
  it has labels, or a label value that is not valid UTF-8; so \<open>Set\<close> can panic. The
  scrape counter has one label and is only given the literals \<^verbatim>\<open>ok\<close> and \<^verbatim>\<open>fail\<close>.
\<close>

record state =
  queries :: "query list"
  gauges :: "gauge \<times> string list \<Rightarrow> float64 option"
  scrapeCounter :: "string \<Rightarrow> nat"
  logs :: "log_entry list"
  net :: "net_event list"

definition init_state :: state where
  "init_state = \<lparr>queries = queries_init, gauges = (\<lambda>_. None), scrapeCounter = (\<lambda>_. 0),
                 logs = [], net = []\<rparr>"

fun labelCount :: "gauge \<Rightarrow> nat" where
  \<comment> \<open>the number of labels the gauge vector was made with\<close>
  "labelCount monitoredObjectGauge = 1"
| "labelCount monitorCounterObjectGauge = 1"
| "labelCount monitorOperationGauge = 1"
| "labelCount monitorReplicationGauge = 2"

definition validLabelValues :: "gauge \<Rightarrow> string list \<Rightarrow> bool" where
  "validLabelValues g lvs = (length lvs = labelCount g \<and> list_all utf8_ValidString lvs)"

definition store :: "gauge \<Rightarrow> string list \<Rightarrow> float64 \<Rightarrow> state \<Rightarrow> state" where
  \<comment> \<open>the gauge of these label values holds \<open>v\<close>\<close>
  "store g lvs v st = st\<lparr>gauges := (gauges st)((g, lvs) := Some v)\<rparr>"

definition Set :: "gauge \<Rightarrow> string list \<Rightarrow> float64 \<Rightarrow> state \<Rightarrow> state res" where
  \<comment> \<open>\<^verbatim>\<open>g.WithLabelValues(lvs...).Set(v)\<close>\<close>
  "Set g lvs v st = (if validLabelValues g lvs then Ret (store g lvs v st) else Panic)"

definition Inc :: "string \<Rightarrow> state \<Rightarrow> state" where
  \<comment> \<open>\<^verbatim>\<open>scrapeCounter.WithLabelValues(result).Inc()\<close>\<close>
  "Inc result st = st\<lparr>scrapeCounter := (scrapeCounter st)(result := scrapeCounter st result + 1)\<rparr>"

definition Log :: "level \<Rightarrow> (string \<times> string) list \<Rightarrow> error option \<Rightarrow> string \<Rightarrow> state \<Rightarrow> state" where
  "Log l fs e m st = st\<lparr>logs := logs st @ [\<lparr>Level = l, Message = m, Data = fs, err = e\<rparr>]\<rparr>"

subsection \<open>The directory servers\<close>

text \<open>
  What the servers answer is a parameter of a cycle. Each answer may depend on how many
  requests were made before it (the length of \<open>net\<close>), so the same search can be
  answered differently the second time.
\<close>

record world =
  dial :: "nat \<Rightarrow> string \<Rightarrow> string \<Rightarrow> error option"
  bind :: "nat \<Rightarrow> string \<Rightarrow> string \<Rightarrow> string \<Rightarrow> error option"
  search :: "nat \<Rightarrow> string \<Rightarrow> string \<Rightarrow> string \<Rightarrow> string \<Rightarrow> error + Entry list"

definition Dial :: "world \<Rightarrow> string \<Rightarrow> string \<Rightarrow> state \<Rightarrow> error option \<times> state" where
  "Dial w network addr st =
     (dial w (length (net st)) network addr, st\<lparr>net := net st @ [EvDial network addr]\<rparr>)"

definition Bind :: "world \<Rightarrow> string \<Rightarrow> string \<Rightarrow> string \<Rightarrow> state \<Rightarrow> error option \<times> state" where
  "Bind w addr user pass st =
     (bind w (length (net st)) addr user pass, st\<lparr>net := net st @ [EvBind addr user pass]\<rparr>)"

definition Search :: "world \<Rightarrow> string \<Rightarrow> query \<Rightarrow> state \<Rightarrow> (error + Entry list) \<times> state" where
  \<comment> \<open>a whole-subtree search for the descriptor's base, filter and one attribute\<close>
  "Search w addr q st =
     (search w (length (net st)) addr (baseDN q) (searchFilter q) (searchAttr q),
      st\<lparr>net := net st @ [EvSearch addr (baseDN q) (searchFilter q) (searchAttr q)]\<rparr>)"

definition Close :: "string \<Rightarrow> state \<Rightarrow> state" where
  "Close addr st = st\<lparr>net := net st @ [EvClose addr]\<rparr>"

record Scraper =
  Net :: string
  Addr :: string
  User :: string
  Pass :: string
  Tick :: int
  LdapSync :: "string list"
  slog :: "(string \<times> string) list"   \<comment> \<open>the field \<^verbatim>\<open>log\<close>: the fields of the scraper's logger\<close>
  Sync :: "string list"
  LdapSyncTimeDetal :: bool
  LdapSyncMasterAddr :: string

section \<open>The scraper's functions\<close>

subsection \<open>\<^verbatim>\<open>setValue\<close>\<close>

fun setValue :: "Entry list \<Rightarrow> query \<Rightarrow> state \<Rightarrow> state res" where
  "setValue [] q st = Ret st"
| "setValue (entry # entries) q st =
     (let val = GetAttributeValue entry (searchAttr q) in
      if val = [] then setValue entries q st
      else
        (let (num, e) = ParseFloat val in
         if e \<noteq> None then setValue entries q st
         else
           (case Set (metric q) [DN entry] num st of
              Panic \<Rightarrow> Panic
            | Ret st1 \<Rightarrow> setValue entries q st1)))"

subsection \<open>\<^verbatim>\<open>parseContextCSN\<close>\<close>

text \<open>
  The function has five named results, returned as they stand at each \<^verbatim>\<open>return\<close>:
  \<open>(gt, count, sid, mod, err)\<close>. It logs through the global logger.
\<close>

type_synonym csn = "float64 \<times> float64 \<times> string \<times> float64 \<times> error option"

definition parseContextCSN :: "string \<Rightarrow> (string \<times> string) list \<Rightarrow> state \<Rightarrow> (csn \<times> state) res" where
  "parseContextCSN val fs st =
     (let valueBuffer = strings_Split val (CHR ''#'') in
      case index valueBuffer 0 of Panic \<Rightarrow> Panic | Ret v0 \<Rightarrow>
        (let (t, e) = time_Parse v0;
             gt = float64_of_int64 (Unix t)
         in if e \<noteq> None then
              Ret ((gt, Fin 0, [], Fin 0, e), Log WarnLevel fs e ''unexpected gt value'' st)
            else
              (case index valueBuffer 1 of Panic \<Rightarrow> Panic | Ret v1 \<Rightarrow>
                 (let (cnt, e) = ParseFloat v1
                  in if e \<noteq> None then
                       Ret ((gt, cnt, [], Fin 0, e),
                            Log WarnLevel fs e ''unexpected count value'' st)
                     else
                       (case index valueBuffer 2 of Panic \<Rightarrow> Panic | Ret sid \<Rightarrow>
                          (case index valueBuffer 3 of Panic \<Rightarrow> Panic | Ret v3 \<Rightarrow>
                             (let (modv, e) = ParseFloat v3
                              in if e \<noteq> None then
                                   Ret ((gt, cnt, sid, modv, e),
                                        Log WarnLevel fs e ''unexpected mod value'' st)
                                 else Ret ((gt, cnt, sid, modv, None), st))))))))"

subsection \<open>\<^verbatim>\<open>setReplicationValue\<close> and \<^verbatim>\<open>setReplicationDelayValue\<close>\<close>

text \<open>
  Both take the descriptor by pointer; \<open>setReplicationValue\<close> writes its field
  \<open>RepolicateResult\<close>, so the descriptor is returned with the state.
\<close>

definition logFields :: "query \<Rightarrow> string \<Rightarrow> (string \<times> string) list" where
  "logFields q val = [(''filter'', searchFilter q), (''attr'', searchAttr q), (''value'', val)]"

fun setReplicationValue :: "Entry list \<Rightarrow> query \<Rightarrow> state \<Rightarrow> (query \<times> state) res" where
  "setReplicationValue [] q st = Ret (q, st)"
| "setReplicationValue (entry # entries) q st =
     (let val = GetAttributeValue entry (searchAttr q) in
      if val = [] then setReplicationValue entries q st
      else
        (case parseContextCSN val (logFields q val) st of
           Panic \<Rightarrow> Panic
         | Ret ((gt, cnt, sid, modv, e), st1) \<Rightarrow>
             if e \<noteq> None then setReplicationValue entries q st1
             else
               (let q1 = q\<lparr>RepolicateResult := gt\<rparr> in
                case Set (metric q1) [sid, ''gt''] gt st1 of Panic \<Rightarrow> Panic | Ret st2 \<Rightarrow>
                  (case Set (metric q1) [sid, ''count''] cnt st2 of Panic \<Rightarrow> Panic | Ret st3 \<Rightarrow>
                     (case Set (metric q1) [sid, ''mod''] modv st3 of Panic \<Rightarrow> Panic | Ret st4 \<Rightarrow>
                        setReplicationValue entries q1 st4)))))"

fun setReplicationDelayValue :: "Entry list \<Rightarrow> query \<Rightarrow> state \<Rightarrow> (query \<times> state) res" where
  "setReplicationDelayValue [] q st = Ret (q, st)"
| "setReplicationDelayValue (entry # entries) q st =
     (let val = GetAttributeValue entry (searchAttr q) in
      if val = [] then setReplicationDelayValue entries q st
      else
        (let valueBuffer = strings_Split val (CHR ''#'') in
         case index valueBuffer 0 of Panic \<Rightarrow> Panic | Ret v0 \<Rightarrow>
           (let (gt, e) = time_Parse v0
            in if e \<noteq> None then
                 setReplicationDelayValue entries q
                   (Log WarnLevel (logFields q val) e ''unexpected gt value'' st)
               else
                 (case index valueBuffer 2 of Panic \<Rightarrow> Panic | Ret sid \<Rightarrow>
                    (case Set (metric q) [sid, ''gt''] (float64_of_int64 (Unix gt)) st of
                       Panic \<Rightarrow> Panic
                     | Ret st1 \<Rightarrow> setReplicationDelayValue entries q st1)))))"

definition call_setData :: "Entry list \<Rightarrow> query \<Rightarrow> state \<Rightarrow> (query \<times> state) res" where
  \<comment> \<open>\<^verbatim>\<open>q.setData(entries, q)\<close>\<close>
  "call_setData entries q st = (case setData q of
       setValue_fn \<Rightarrow>
         (case setValue entries q st of Panic \<Rightarrow> Panic | Ret st1 \<Rightarrow> Ret (q, st1))
     | setReplicationValue_fn \<Rightarrow> setReplicationValue entries q st
     | setReplicationDelayValue_fn \<Rightarrow> setReplicationDelayValue entries q st)"

subsection \<open>\<^verbatim>\<open>addReplicationQueries\<close>\<close>

definition replicationQuery :: "string \<Rightarrow> query" where
  "replicationQuery q = \<lparr>baseDN = q, searchFilter = objectClass ''*'',
     searchAttr = monitorReplicationFilter, metric = monitorReplicationGauge,
     setData = setReplicationValue_fn, RepolicateResult = Fin 0\<rparr>"

definition addReplicationQueries :: "Scraper \<Rightarrow> state \<Rightarrow> state" where
  "addReplicationQueries s st =
     foldl (\<lambda>st q. st\<lparr>queries := queries st @ [replicationQuery q]\<rparr>) st (Sync s)"

subsection \<open>\<^verbatim>\<open>scrapeQuery\<close> and \<^verbatim>\<open>queryMasterContext\<close>\<close>

definition scrapeQuery :: "world \<Rightarrow> Scraper \<Rightarrow> query \<Rightarrow> state \<Rightarrow> (error option \<times> query \<times> state) res" where
  "scrapeQuery w s q st =
     (case Search w (Addr s) q st of
        (Inl e, st1) \<Rightarrow> Ret (Some e, q, st1)
      | (Inr entries, st1) \<Rightarrow>
          (case call_setData entries q st1 of
             Panic \<Rightarrow> Panic
           | Ret (q1, st2) \<Rightarrow> Ret (None, q1, st2)))"

definition queryMasterContext :: "world \<Rightarrow> Scraper \<Rightarrow> query \<Rightarrow> state \<Rightarrow> (error + Entry list) \<times> state" where
  "queryMasterContext w s q st =
     (case Dial w (Net s) (LdapSyncMasterAddr s) st of
        (Some e, st1) \<Rightarrow> (Inl e, Log ErrorLevel (slog s) (Some e) ''dial master node failed'' st1)
      | (None, st1) \<Rightarrow>
          (let (r, st4) =
             (case Bind w (LdapSyncMasterAddr s) (User s) (Pass s) st1 of
                (Some e, st2) \<Rightarrow>
                  (Inl e, Log ErrorLevel (slog s) (Some e) ''bind master failed'' st2)
              | (None, st2) \<Rightarrow> Search w (LdapSyncMasterAddr s) q st2)
           in (r, Close (LdapSyncMasterAddr s) st4)))"

subsection \<open>\<^verbatim>\<open>scrape\<close>\<close>

text \<open>
  One turn of the loop over \<^verbatim>\<open>queries\<close> ends in one of three ways: the loop goes on
  to the next descriptor (the end of the body, or \<^verbatim>\<open>continue\<close>), \<^verbatim>\<open>scrape\<close> returns
  \<^verbatim>\<open>false\<close>, or the process panics.
\<close>

datatype step = Continue bool state | Return bool state | Crash

definition masterDelay :: "world \<Rightarrow> Scraper \<Rightarrow> query \<Rightarrow> bool \<Rightarrow> state \<Rightarrow> step" where
  \<comment> \<open>the block under \<^verbatim>\<open>if s.LdapSyncTimeDetal\<close>\<close>
  "masterDelay w s q ret st =
     (case queryMasterContext w s q st of
        (Inl e, st1) \<Rightarrow>
          Return False (Log ErrorLevel (slog s) (Some e) ''query master context error'' st1)
      | (Inr entries, st1) \<Rightarrow>
          if length entries \<le> 0 then
            Return False
              (Log ErrorLevel (slog s) None ''get master context csn error ,result empty'' st1)
          else
            (let entry = entries ! 0;
                 val = GetAttributeValue entry (searchAttr q)
             in if val = [] then Continue ret st1
                else
                  (let valueBuffer = strings_Split val (CHR ''#'') in
                   case index valueBuffer 0 of Panic \<Rightarrow> Crash | Ret v0 \<Rightarrow>
                     (let (gt, e) = time_Parse v0
                      in if e \<noteq> None then
                           Return False
                             (Log ErrorLevel (slog s) e (''time parser error,value=%s'' @ v0) st1)
                         else
                           (case index valueBuffer 2 of Panic \<Rightarrow> Crash | Ret sid \<Rightarrow>
                              (case Set (metric q) [sid, ''delay'']
                                      (f64_sub (float64_of_int64 (Unix gt)) (RepolicateResult q))
                                      st1 of
                                 Panic \<Rightarrow> Crash
                               | Ret st2 \<Rightarrow> Continue ret st2))))))"

definition scrape_body :: "world \<Rightarrow> Scraper \<Rightarrow> nat \<Rightarrow> bool \<Rightarrow> state \<Rightarrow> step" where
  \<comment> \<open>the body of the loop, for the descriptor at position \<open>i\<close>\<close>
  "scrape_body w s i ret st =
     (let q = queries st ! i in
      case scrapeQuery w s q st of
        Panic \<Rightarrow> Crash
      | Ret (e, q1, st1) \<Rightarrow>
          (let st2 = st1\<lparr>queries := (queries st1)[i := q1]\<rparr>;
               (ret1, st3) =
                 (if e \<noteq> None then
                    (False, Log WarnLevel
                       (slog s @ [(''filter'', searchFilter q1), (''base_dn'', baseDN q1)])
                       e ''query failed'' st2)
                  else (ret, st2))
           in if searchAttr q1 = monitorReplicationFilter then
                (if LdapSyncTimeDetal s then masterDelay w s q1 ret1 st3
                 else Continue ret1 st3)
              else Continue ret1 st3))"

fun scrape_loop :: "world \<Rightarrow> Scraper \<Rightarrow> nat list \<Rightarrow> bool \<Rightarrow> state \<Rightarrow> (bool \<times> state) res" where
  "scrape_loop w s [] ret st = Ret (ret, st)"
| "scrape_loop w s (i # is) ret st =
     (case scrape_body w s i ret st of
        Continue ret1 st1 \<Rightarrow> scrape_loop w s is ret1 st1
      | Return b st1 \<Rightarrow> Ret (b, st1)
      | Crash \<Rightarrow> Panic)"

definition closing :: "string \<Rightarrow> (bool \<times> state) res \<Rightarrow> (bool \<times> state) res" where
  \<comment> \<open>\<^verbatim>\<open>defer conn.Close()\<close>\<close>
  "closing addr r = (case r of Panic \<Rightarrow> Panic | Ret (b, st) \<Rightarrow> Ret (b, Close addr st))"

definition scrape :: "world \<Rightarrow> Scraper \<Rightarrow> state \<Rightarrow> (bool \<times> state) res" where
  "scrape w s st =
     (case Dial w (Net s) (Addr s) st of
        (Some e, st1) \<Rightarrow> Ret (False, Log ErrorLevel (slog s) (Some e) ''dial failed'' st1)
      | (None, st1) \<Rightarrow>
          closing (Addr s)
            (case (if User s \<noteq> [] \<and> Pass s \<noteq> [] then Bind w (Addr s) (User s) (Pass s) st1
                   else (None, st1)) of
               (Some e, st2) \<Rightarrow>
                 Ret (False, Log ErrorLevel (slog s) (Some e) ''bind failed'' st2)
             | (None, st2) \<Rightarrow> scrape_loop w s [0..<length (queries st2)] True st2))"

subsection \<open>\<^verbatim>\<open>runOnce\<close> and \<^verbatim>\<open>Start\<close>\<close>

definition runOnce :: "world \<Rightarrow> Scraper \<Rightarrow> state \<Rightarrow> state res" where
  "runOnce w s st =
     (case scrape w s st of
        Panic \<Rightarrow> Panic
      | Ret (ok, st1) \<Rightarrow> Ret (Inc (if ok then ''ok'' else ''fail'') st1))"

text \<open>
  \<^verbatim>\<open>Start\<close> runs one cycle for each tick of its ticker until the context is
  cancelled. The ticks that come before the cancellation are given as the list of what
  the directory servers answer during each of them. \<^verbatim>\<open>time.NewTicker\<close> panics when
  the interval is not positive.
\<close>

fun monitor_loop :: "world list \<Rightarrow> Scraper \<Rightarrow> state \<Rightarrow> state res" where
  "monitor_loop [] s st = Ret st"
| "monitor_loop (w # ws) s st =
     (case runOnce w s st of Panic \<Rightarrow> Panic | Ret st1 \<Rightarrow> monitor_loop ws s st1)"

definition Start :: "world list \<Rightarrow> Scraper \<Rightarrow> state \<Rightarrow> state res" where
  "Start ticks s0 st =
     (let s = s0\<lparr>slog := [(''component'', ''scraper'')]\<rparr>;
          st1 = addReplicationQueries s st;
          address = Net s @ ''://'' @ Addr s;
          st2 = Log InfoLevel (slog s @ [(''addr'', address)]) None ''starting monitor loop'' st1
      in if Tick s \<le> 0 then Panic else monitor_loop ticks s st2)"

section \<open>When a cycle fails\<close>

text \<open>
  The failures of a cycle, stated over what the directory servers answer and not over
  what \<^verbatim>\<open>scrape\<close> does. The request made when \<open>n\<close> requests have been made before it is
  answered by the world at \<open>n\<close>. A descriptor's search fails when the answer is an
  error. The check against the primary dials, binds and searches, and closes the
  connection; it fails when the dial, the bind or the search is answered with an error,
  when the search finds no entry, or when the first entry has a token whose first field
  does not parse as a time.
\<close>

definition search_fails :: "world \<Rightarrow> Scraper \<Rightarrow> query \<Rightarrow> nat \<Rightarrow> bool" where
  "search_fails w s q n =
     (case search w n (Addr s) (baseDN q) (searchFilter q) (searchAttr q) of
        Inl _ \<Rightarrow> True
      | Inr _ \<Rightarrow> False)"

definition primary_check_fails :: "world \<Rightarrow> Scraper \<Rightarrow> query \<Rightarrow> nat \<Rightarrow> bool" where
  "primary_check_fails w s q n =
     (dial w n (Net s) (LdapSyncMasterAddr s) \<noteq> None
      \<or> bind w (n + 1) (LdapSyncMasterAddr s) (User s) (Pass s) \<noteq> None
      \<or> (case search w (n + 2) (LdapSyncMasterAddr s) (baseDN q) (searchFilter q) (searchAttr q) of
            Inl _ \<Rightarrow> True
          | Inr es \<Rightarrow>
              es = [] \<or>
              (let val = GetAttributeValue (hd es) (searchAttr q)
               in val \<noteq> [] \<and> snd (time_Parse (hd (strings_Split val (CHR ''#'')))) \<noteq> None)))"

text \<open>
  The descriptors are taken in the order of the catalog, the first at request \<open>n\<close>. A
  replication descriptor is followed by the check against the primary when the delay is
  checked; a check that does not fail has made four requests.
\<close>

fun some_query_fails :: "world \<Rightarrow> Scraper \<Rightarrow> query list \<Rightarrow> nat \<Rightarrow> bool" where
  "some_query_fails w s [] n = False"
| "some_query_fails w s (q # qs) n =
     (let checked = (searchAttr q = monitorReplicationFilter \<and> LdapSyncTimeDetal s)
      in search_fails w s q n
         \<or> (checked \<and> primary_check_fails w s q (n + 1))
         \<or> some_query_fails w s qs (if checked then n + 5 else n + 1))"

definition cycle_fails :: "world \<Rightarrow> Scraper \<Rightarrow> query list \<Rightarrow> nat \<Rightarrow> bool" where
  \<comment> \<open>a cycle over the catalog \<open>qs\<close> whose first request is the \<open>n\<close>-th\<close>
  "cycle_fails w s qs n =
     (let credentials = (User s \<noteq> [] \<and> Pass s \<noteq> [])
      in dial w n (Net s) (Addr s) \<noteq> None
         \<or> (credentials \<and> bind w (n + 1) (Addr s) (User s) (Pass s) \<noteq> None)
         \<or> some_query_fails w s qs (if credentials then n + 2 else n + 1))"

section \<open>Label values the metrics library accepts\<close>

text \<open>
  \<^verbatim>\<open>setValue\<close> gives the DN of an entry to the metrics library as a label value when
  the entry's attribute is a number. The entries of an answer are accepted when each
  such DN is valid UTF-8.
\<close>

definition dnLabelsValid :: "query \<Rightarrow> Entry list \<Rightarrow> bool" where
  "dnLabelsValid q es =
     list_all (\<lambda>e. let val = GetAttributeValue e (searchAttr q)
                    in val = [] \<or> snd (ParseFloat val) \<noteq> None \<or> utf8_ValidString (DN e)) es"

definition staticLabelsValid :: "world \<Rightarrow> Scraper \<Rightarrow> nat \<Rightarrow> bool" where
  \<comment> \<open>the answers to the four searches of the initial catalog, the first at request \<open>n\<close>\<close>
  "staticLabelsValid w s n =
     list_all (\<lambda>k. case search w (n + k) (Addr s) (baseDN (queries_init ! k))
                            (searchFilter (queries_init ! k)) (searchAttr (queries_init ! k)) of
                      Inl _ \<Rightarrow> True
                    | Inr es \<Rightarrow> dnLabelsValid (queries_init ! k) es) [0..<4]"

section \<open>Example inputs\<close>

text \<open>
  A scraper for one replication peer, without credentials and without delay checking,
  and directory entries carrying a replication token.
\<close>

definition example_scraper :: Scraper where
  "example_scraper = \<lparr>Net = ''tcp'', Addr = ''localhost:389'', User = [], Pass = [], Tick = 30,
     LdapSync = [], slog = [(''component'', ''scraper'')], Sync = [''dc=example,dc=com''],
     LdapSyncTimeDetal = False, LdapSyncMasterAddr = []\<rparr>"

definition token_entry :: "string \<Rightarrow> Entry" where
  "token_entry val = \<lparr>DN = ''dc=example,dc=com'', Attributes = [(''contextCSN'', [val])]\<rparr>"

definition token_world :: "string \<Rightarrow> world" where
  \<comment> \<open>every dial and bind succeeds; a search for the token attribute finds one entry\<close>
  "token_world val = \<lparr>dial = (\<lambda>_ _ _. None), bind = (\<lambda>_ _ _ _. None),
     search = (\<lambda>_ _ _ _ attr. Inr (if attr = ''contextCSN'' then [token_entry val] else []))\<rparr>"

text \<open>A directory whose searches all fail.\<close>

definition failing_search_world :: world where
  "failing_search_world = \<lparr>dial = (\<lambda>_ _ _. None), bind = (\<lambda>_ _ _ _. None),
     search = (\<lambda>_ _ _ _ _. Inl (LDAPError ''no such object''))\<rparr>"

text \<open>
  A scraper that checks the delay against a primary, and a directory where only the
  primary reports a token.
\<close>

definition delay_scraper :: Scraper where
  "delay_scraper = example_scraper\<lparr>LdapSyncTimeDetal := True, LdapSyncMasterAddr := ''primary:389''\<rparr>"

definition primary_world :: "string \<Rightarrow> error option \<Rightarrow> world" where
  \<comment> \<open>the primary answers a bind with the given result and reports the given token\<close>
  "primary_world val b = \<lparr>dial = (\<lambda>_ _ _. None),
     bind = (\<lambda>_ addr _ _. if addr = ''primary:389'' then b else None),
     search = (\<lambda>_ addr _ _ attr.
        Inr (if attr = ''contextCSN'' \<and> addr = ''primary:389'' then [token_entry val] else []))\<rparr>"

text \<open>A directory whose operation counter changes between two searches of a cycle.\<close>

definition operations_world :: world where
  \<comment> \<open>the count of completed binds is 2 at the third request of a cycle and 5 afterwards\<close>
  "operations_world = \<lparr>dial = (\<lambda>_ _ _. None), bind = (\<lambda>_ _ _ _. None),
     search = (\<lambda>n _ base _ _.
        Inr (if base = ''cn=Operations,cn=Monitor''
             then [\<lparr>DN = ''cn=Bind,cn=Operations,cn=Monitor'',
                    Attributes = [(''monitorOpCompleted'', [if n = 2 then ''2'' else ''5''])]\<rparr>]
             else []))\<rparr>"



text \<open>
  A directory whose operation entry has a DN that is not valid UTF-8 (the byte
  \<open>0xFF\<close>), and the outcome of a cycle with the requests it has made.
\<close>

definition bad_dn_world :: world where
  "bad_dn_world = \<lparr>dial = (\<lambda>_ _ _. None), bind = (\<lambda>_ _ _ _. None),
     search = (\<lambda>_ _ base _ _.
        Inr (if base = ''cn=Operations,cn=Monitor''
             then [\<lparr>DN = [CHR 0xFF], Attributes = [(''monitorOpCompleted'', [''5''])]\<rparr>]
             else []))\<rparr>"

definition outcome :: "(bool \<times> state) res \<Rightarrow> (bool \<times> net_event list) res" where
  "outcome r = (case r of Panic \<Rightarrow> Panic | Ret (ok, st) \<Rightarrow> Ret (ok, net st))"

section \<open>Integers as float64\<close>

text \<open>
  An integer below \<open>2\<^sup>5\<^sup>3\<close> in absolute value is a binary64 number: converting it is
  exact, and so is the difference of two such integers below \<open>2\<^sup>5\<^sup>2\<close>.
\<close>

lemma round_half_even_of_int: "round_half_even (of_int j) = j"
  by (simp add: round_half_even_def)

lemma ilog2_of_int:
  assumes "0 < m"
  shows "ilog2 (of_int m) = bitlen m - 1"
proof -
  have b: "1 \<le> bitlen m" using assms by (simp add: bitlen_alt_def)
  have "(2::int) ^ nat (bitlen m - 1) \<le> m" using bitlen_bounds [OF assms] by simp
  then have "(of_int ((2::int) ^ nat (bitlen m - 1)) :: rat) \<le> of_int m"
    by (simp only: of_int_le_iff)
  then have "pow2 (bitlen m - 1) \<le> of_int m"
    using b by (simp add: pow2_def)
  moreover have "bitlen 1 = 1" by (simp add: bitlen_alt_def)
  ultimately show ?thesis
    by (simp add: ilog2_def)
qed

lemma bitlen_le_53:
  assumes "0 < m" "m < 2 ^ 53"
  shows "bitlen m \<le> 53"
proof (rule ccontr)
  assume "\<not> bitlen m \<le> 53"
  then have "53 \<le> nat (bitlen m - 1)" by simp
  then have "(2::int) ^ 53 \<le> 2 ^ nat (bitlen m - 1)"
    by (intro power_increasing) simp_all
  with bitlen_bounds [OF assms(1)] assms(2) show False by simp
qed

lemma f64_round_pos_int:
  assumes "0 < m" "m < 2 ^ 53"
  shows "f64_round (of_int m) = Fin (of_int m)" and "f64_round (- of_int m) = Fin (- of_int m)"
proof -
  define k where "k = nat (53 - bitlen m)"
  have b: "1 \<le> bitlen m" using assms(1) by (simp add: bitlen_alt_def)
  have e: "ilog2 (of_int m) = bitlen m - 1" by (rule ilog2_of_int [OF assms(1)])
  have q: "pow2 (max (bitlen m - 1) (- 1022) - 52) = 1 / 2 ^ k"
    using b bitlen_le_53 [OF assms] by (auto simp: pow2_def k_def max_def)
  have "(of_int m :: rat) / (1 / 2 ^ k) = of_int (m * 2 ^ k)" by simp
  then have r: "of_int (round_half_even ((of_int m :: rat) / (1 / 2 ^ k))) * (1 / 2 ^ k)
      = (of_int m :: rat)"
    by (simp only: round_half_even_of_int) simp
  have lt: "\<not> (2::rat) ^ 1024 \<le> of_int m"
  proof -
    have "(of_int m :: rat) < of_int (2 ^ 53)" using assms(2) by (simp only: of_int_less_iff)
    moreover have "(of_int (2 ^ 53) :: rat) \<le> 2 ^ 1024" by simp
    ultimately show ?thesis by simp
  qed
  have nz: "(of_int m :: rat) \<noteq> 0" "\<bar>of_int m :: rat\<bar> = of_int m" "\<not> (of_int m :: rat) < 0"
    using assms(1) by simp_all
  show "f64_round (of_int m) = Fin (of_int m)"
    by (simp only: f64_round_def Let_def nz e q r lt if_False)
  have nz': "- (of_int m :: rat) \<noteq> 0" "\<bar>- of_int m :: rat\<bar> = of_int m" "- (of_int m :: rat) < 0"
    using assms(1) by simp_all
  show "f64_round (- of_int m) = Fin (- of_int m)"
    by (simp only: f64_round_def Let_def nz' e q r lt if_False if_True)
qed

lemma f64_round_int:
  assumes "\<bar>n\<bar> < 2 ^ 53"
  shows "f64_round (of_int n) = Fin (of_int n)"
proof -
  consider "n = 0" | "0 < n" | "n < 0" by linarith
  then show ?thesis
  proof cases
    case 1
    then show ?thesis by (simp add: f64_round_def)
  next
    case 2
    with assms f64_round_pos_int(1) [of n] show ?thesis by simp
  next
    case 3
    with assms f64_round_pos_int(2) [of "- n"] show ?thesis by simp
  qed
qed

lemma float64_of_int64_exact: "\<bar>n\<bar> < 2 ^ 53 \<Longrightarrow> float64_of_int64 n = Fin (of_int n)"
  by (simp add: float64_of_int64_def f64_round_int)


section \<open>Evaluating the library functions\<close>

lemma strings_Split_no_sep: "sep \<notin> set a \<Longrightarrow> strings_Split a sep = [a]"
  by (induction a) auto

lemma strings_Split_append:
  "sep \<notin> set a \<Longrightarrow> strings_Split (a @ sep # b) sep = a # strings_Split b sep"
  by (induction a) auto

text \<open>
  \<open>time_Parse\<close> accepts every string of fourteen digits that name a day of the calendar
  and a time of the day, followed by an optional fraction and the letter Z.
\<close>

lemma digitVal_range: "isDigit c \<Longrightarrow> 0 \<le> digitVal c \<and> digitVal c \<le> 9"
  by (auto simp: isDigit_def digitVal_def)

lemma getnum_two:
  "isDigit a \<Longrightarrow> isDigit b \<Longrightarrow> getnum (a # b # rest) fixed = Some (digitVal a * 10 + digitVal b, rest)"
  by (simp add: getnum_def)

lemma getyear_four:
  "isDigit a \<Longrightarrow> isDigit b \<Longrightarrow> isDigit c \<Longrightarrow> isDigit d \<Longrightarrow>
   getyear (a # b # c # d # rest) =
     Some (((digitVal a * 10 + digitVal b) * 10 + digitVal c) * 10 + digitVal d, rest)"
  by (simp add: getyear_def)

lemma getfrac_none: "getfrac ''Z'' = (0, ''Z'')"
  by (simp add: getfrac_def)

lemma getfrac_some:
  assumes "c = CHR ''.'' \<or> c = CHR '',''" "ds \<noteq> []" "list_all isDigit ds"
  shows "snd (getfrac (c # ds @ ''Z'')) = ''Z''"
proof -
  from assms(2) obtain d ds' where ds: "ds = d # ds'" by (cases ds) auto
  have "\<not> isDigit (CHR ''Z'')" by (simp add: isDigit_def)
  then have "dropWhile isDigit (ds @ ''Z'') = ''Z''"
    using assms(3) by (induction ds) simp_all
  then show ?thesis
    using assms(1,3) ds by (auto simp: getfrac_def Let_def)
qed

lemma time_Parse_wellformed:
  assumes "isDigit y1" "isDigit y2" "isDigit y3" "isDigit y4" "isDigit m1" "isDigit m2"
    "isDigit d1" "isDigit d2" "isDigit h1" "isDigit h2" "isDigit n1" "isDigit n2"
    "isDigit s1" "isDigit s2"
    and "fr = [] \<or> (\<exists>c ds. fr = c # ds \<and> (c = CHR ''.'' \<or> c = CHR '','') \<and> ds \<noteq> []
            \<and> list_all isDigit ds)"
    and "yy = ((digitVal y1 * 10 + digitVal y2) * 10 + digitVal y3) * 10 + digitVal y4"
    and "mo = digitVal m1 * 10 + digitVal m2" "1 \<le> mo" "mo \<le> 12"
    and "dd = digitVal d1 * 10 + digitVal d2" "1 \<le> dd" "dd \<le> daysIn mo yy"
    and "hh = digitVal h1 * 10 + digitVal h2" "hh < 24"
    and "mi = digitVal n1 * 10 + digitVal n2" "mi < 60"
    and "ss = digitVal s1 * 10 + digitVal s2" "ss < 60"
  shows "\<exists>ns. time_Parse
           (y1 # y2 # y3 # y4 # m1 # m2 # d1 # d2 # h1 # h2 # n1 # n2 # s1 # s2 # fr @ ''Z'')
         = (\<lparr>year = yy, month = mo, day = dd, hour = hh, minute = mi, second = ss, nsec = ns\<rparr>,
            None)"
proof -
  have nn: "0 \<le> hh" "0 \<le> mi" "0 \<le> ss"
    using assms(9-14,23,25,27) digitVal_range by simp_all
  obtain ns where f: "getfrac (fr @ ''Z'') = (ns, ''Z'')"
  proof (cases "fr = []")
    case True
    then show ?thesis using that getfrac_none by simp
  next
    case False
    with assms(15) obtain c ds where "fr = c # ds" "c = CHR ''.'' \<or> c = CHR '',''" "ds \<noteq> []"
      "list_all isDigit ds" by blast
    then have "snd (getfrac (fr @ ''Z'')) = ''Z''" using getfrac_some by simp
    then show ?thesis using that by (cases "getfrac (fr @ ''Z'')") simp
  qed
  have "parseFields
           (y1 # y2 # y3 # y4 # m1 # m2 # d1 # d2 # h1 # h2 # n1 # n2 # s1 # s2 # fr @ ''Z'')
         = Some \<lparr>year = yy, month = mo, day = dd, hour = hh, minute = mi, second = ss, nsec = ns\<rparr>"
    using assms(1-14) assms(16-28) nn f
    by (simp add: parseFields_def getyear_four getnum_two)
  then show ?thesis by (auto simp: time_Parse_def)
qed

lemma time_Parse_20211001:
  "time_Parse ''20211001120000Z'' =
     (\<lparr>year = 2021, month = 10, day = 1, hour = 12, minute = 0, second = 0, nsec = 0\<rparr>, None)"
  by code_simp

lemma time_Parse_20211001_frac:
  "time_Parse ''20211001120000.123456Z'' =
     (\<lparr>year = 2021, month = 10, day = 1, hour = 12, minute = 0, second = 0,
       nsec = 123456000\<rparr>, None)"
  by code_simp

lemma Unix_20211001:
  "Unix \<lparr>year = 2021, month = 10, day = 1, hour = 12, minute = 0, second = 0, nsec = n\<rparr>
     = 1633089600"
  by (simp add: Unix_def daysSinceEpoch_def)

lemma float64_of_1633089600: "float64_of_int64 1633089600 = Fin 1633089600"
  using float64_of_int64_exact [of 1633089600] by simp

lemma ParseFloat_abc: "ParseFloat ''abc'' = (Fin 0, Some (ErrSyntax ''abc''))"
  by code_simp

lemma special_digit: "special ''5'' = None" "special ''2'' = None"
  by code_simp+

lemma readFloat_digit: "readFloat ''5'' = Some (5, 1)" "readFloat ''2'' = Some (2, 1)"
  by code_simp+

lemma ParseFloat_5: "ParseFloat ''5'' = (Fin 5, None)"
  using f64_round_int [of 5] by (simp add: ParseFloat_def special_digit readFloat_digit)

lemma ParseFloat_2: "ParseFloat ''2'' = (Fin 2, None)"
  using f64_round_int [of 2] by (simp add: ParseFloat_def special_digit readFloat_digit)

section \<open>What the functions leave unchanged\<close>

lemma Set_Ret:
  "Set g lvs v st = Ret st' \<Longrightarrow> st' = store g lvs v st \<and> validLabelValues g lvs"
  by (auto simp: Set_def split: if_splits)

lemma store_frame:
  "scrapeCounter (store g lvs v st) = scrapeCounter st" "logs (store g lvs v st) = logs st"
  "net (store g lvs v st) = net st" "queries (store g lvs v st) = queries st"
  by (simp_all add: store_def)

lemma Log_frame:
  "scrapeCounter (Log l fs e m st) = scrapeCounter st" "gauges (Log l fs e m st) = gauges st"
  "net (Log l fs e m st) = net st" "queries (Log l fs e m st) = queries st"
  by (simp_all add: Log_def)

lemma setValue_frame:
  "setValue es q st = Ret st' \<Longrightarrow>
     scrapeCounter st' = scrapeCounter st \<and> logs st' = logs st
     \<and> net st' = net st \<and> queries st' = queries st"
proof (induction es arbitrary: st)
  case Nil
  then show ?case by simp
next
  case (Cons e es)
  then show ?case
    by (auto simp: Let_def store_frame split: if_splits prod.splits res.splits
        dest!: Set_Ret Cons.IH)
qed

lemma parseContextCSN_frame:
  "parseContextCSN val fs st = Ret (r, st') \<Longrightarrow>
     scrapeCounter st' = scrapeCounter st \<and> net st' = net st \<and> queries st' = queries st
     \<and> gauges st' = gauges st"
  by (auto simp: parseContextCSN_def Log_frame Let_def index_def
      split: res.splits prod.splits if_splits)

lemma setReplicationValue_frame:
  "setReplicationValue es q st = Ret (q', st') \<Longrightarrow>
     scrapeCounter st' = scrapeCounter st \<and> net st' = net st \<and> queries st' = queries st
     \<and> baseDN q' = baseDN q \<and> searchFilter q' = searchFilter q \<and> searchAttr q' = searchAttr q
     \<and> metric q' = metric q \<and> setData q' = setData q"
proof (induction es arbitrary: q st)
  case Nil
  then show ?case by simp
next
  case (Cons e es)
  show ?case
  proof (cases "GetAttributeValue e (searchAttr q) = []")
    case True
    with Cons show ?thesis by simp
  next
    case False
    with Cons.prems obtain r st1 where
      p: "parseContextCSN (GetAttributeValue e (searchAttr q))
            (logFields q (GetAttributeValue e (searchAttr q))) st = Ret (r, st1)"
      by (auto simp: Let_def split: res.splits)
    obtain gt c sid m er where r: "r = (gt, c, sid, m, er)" by (cases r) auto
    note f1 = parseContextCSN_frame [OF p]
    from Cons.prems False p r obtain q1 st2 where
      rest: "setReplicationValue es q1 st2 = Ret (q', st')" and
      same: "baseDN q1 = baseDN q" "searchFilter q1 = searchFilter q"
        "searchAttr q1 = searchAttr q" "metric q1 = metric q" "setData q1 = setData q"
        "scrapeCounter st2 = scrapeCounter st1" "net st2 = net st1" "queries st2 = queries st1"
      by (auto simp: Let_def store_frame split: if_splits res.splits dest!: Set_Ret)
    from Cons.IH [OF rest] same f1 show ?thesis by simp
  qed
qed

lemma setReplicationDelayValue_frame:
  "setReplicationDelayValue es q st = Ret (q', st') \<Longrightarrow>
     scrapeCounter st' = scrapeCounter st \<and> net st' = net st \<and> queries st' = queries st
     \<and> q' = q"
proof (induction es arbitrary: st)
  case Nil
  then show ?case by simp
next
  case (Cons e es)
  show ?case
  proof (cases "GetAttributeValue e (searchAttr q) = []")
    case True
    with Cons show ?thesis by simp
  next
    case False
    with Cons.prems obtain st2 where
      rest: "setReplicationDelayValue es q st2 = Ret (q', st')" and
      same: "scrapeCounter st2 = scrapeCounter st" "net st2 = net st" "queries st2 = queries st"
      by (auto simp: Let_def store_frame Log_frame index_def
          split: if_splits res.splits prod.splits dest!: Set_Ret)
    from Cons.IH [OF rest] same show ?thesis by simp
  qed
qed

lemma call_setData_frame:
  "call_setData es q st = Ret (q', st') \<Longrightarrow>
     scrapeCounter st' = scrapeCounter st \<and> net st' = net st \<and> queries st' = queries st
     \<and> baseDN q' = baseDN q \<and> searchFilter q' = searchFilter q \<and> searchAttr q' = searchAttr q
     \<and> metric q' = metric q \<and> setData q' = setData q"
  by (auto simp: call_setData_def split: setter.splits res.splits
      dest: setValue_frame setReplicationValue_frame setReplicationDelayValue_frame)

lemma scrapeQuery_frame:
  assumes "scrapeQuery w s q st = Ret (e, q', st')"
  shows "scrapeCounter st' = scrapeCounter st"
    and "net st' = net st @ [EvSearch (Addr s) (baseDN q) (searchFilter q) (searchAttr q)]"
    and "queries st' = queries st"
    and "baseDN q' = baseDN q \<and> searchFilter q' = searchFilter q \<and> searchAttr q' = searchAttr q
         \<and> metric q' = metric q \<and> setData q' = setData q"
    and "e \<noteq> None \<longleftrightarrow> search_fails w s q (length (net st))"
  using assms
  by (auto simp: scrapeQuery_def Search_def search_fails_def
      split: sum.splits res.splits prod.splits dest!: call_setData_frame)

lemma queryMasterContext_frame:
  "queryMasterContext w s q st = (r, st') \<Longrightarrow>
     scrapeCounter st' = scrapeCounter st \<and> queries st' = queries st"
  by (auto simp: queryMasterContext_def Dial_def Bind_def Search_def Close_def Log_def Let_def
      split: option.splits prod.splits)

section \<open>The check against the primary\<close>

lemma strings_Split_not_Nil: "strings_Split v c \<noteq> []"
  by (induction v) (auto split: list.splits)

lemma index_Split_0: "index (strings_Split v c) 0 = Ret (hd (strings_Split v c))"
  using strings_Split_not_Nil [of v c] by (simp add: index_def hd_conv_nth)

lemma primary_check_fails_descriptor:
  "baseDN q' = baseDN q \<Longrightarrow> searchFilter q' = searchFilter q \<Longrightarrow> searchAttr q' = searchAttr q
     \<Longrightarrow> primary_check_fails w s q' n = primary_check_fails w s q n"
  by (simp add: primary_check_fails_def cong: sum.case_cong)

lemma search_fails_descriptor:
  "baseDN q' = baseDN q \<Longrightarrow> searchFilter q' = searchFilter q \<Longrightarrow> searchAttr q' = searchAttr q
     \<Longrightarrow> search_fails w s q' n = search_fails w s q n"
  by (simp add: search_fails_def)

lemma queryMasterContext_cases:
  obtains
    (dial) e st1 where "dial w (length (net st)) (Net s) (LdapSyncMasterAddr s) = Some e"
      "queryMasterContext w s q st = (Inl e, st1)"
  | (bind) e st1 where "dial w (length (net st)) (Net s) (LdapSyncMasterAddr s) = None"
      "bind w (length (net st) + 1) (LdapSyncMasterAddr s) (User s) (Pass s) = Some e"
      "queryMasterContext w s q st = (Inl e, st1)"
  | (search) "dial w (length (net st)) (Net s) (LdapSyncMasterAddr s) = None"
      "bind w (length (net st) + 1) (LdapSyncMasterAddr s) (User s) (Pass s) = None"
      "queryMasterContext w s q st =
        (search w (length (net st) + 2) (LdapSyncMasterAddr s) (baseDN q) (searchFilter q)
           (searchAttr q),
         st\<lparr>net := net st @ [EvDial (Net s) (LdapSyncMasterAddr s),
                EvBind (LdapSyncMasterAddr s) (User s) (Pass s),
                EvSearch (LdapSyncMasterAddr s) (baseDN q) (searchFilter q) (searchAttr q),
                EvClose (LdapSyncMasterAddr s)]\<rparr>)"
proof (cases "dial w (length (net st)) (Net s) (LdapSyncMasterAddr s)")
  case (Some e)
  then show ?thesis
    by (intro dial [of e]) (simp_all add: queryMasterContext_def Dial_def)
next
  case None
  show ?thesis
  proof (cases "bind w (length (net st) + 1) (LdapSyncMasterAddr s) (User s) (Pass s)")
    case (Some e)
    with None show ?thesis
      by (intro bind [of e])
         (simp_all add: queryMasterContext_def Dial_def Bind_def Close_def)
  next
    case N2: None
    with None show ?thesis
      by (intro search)
         (simp_all add: queryMasterContext_def Dial_def Bind_def Search_def Close_def)
  qed
qed

lemma masterDelay_Continue:
  assumes "masterDelay w s q ret st = Continue r st'"
  shows "r = ret" and "scrapeCounter st' = scrapeCounter st" and "queries st' = queries st"
    and "length (net st') = length (net st) + 4"
    and "\<not> primary_check_fails w s q (length (net st))"
proof -
  have all: "r = ret \<and> scrapeCounter st' = scrapeCounter st \<and> queries st' = queries st
    \<and> length (net st') = length (net st) + 4 \<and> \<not> primary_check_fails w s q (length (net st))"
  proof (cases rule: queryMasterContext_cases [of w st s q])
    case (dial e st1)
    with assms show ?thesis by (simp add: masterDelay_def)
  next
    case (bind e st1)
    with assms show ?thesis by (simp add: masterDelay_def)
  next
    case search
    show ?thesis
    proof (cases "search w (length (net st) + 2) (LdapSyncMasterAddr s) (baseDN q)
                    (searchFilter q) (searchAttr q)")
      case (Inl e)
      with assms search show ?thesis by (simp add: masterDelay_def)
    next
      case (Inr es)
      with assms search show ?thesis
        by (auto simp: masterDelay_def primary_check_fails_def Let_def index_Split_0
            hd_conv_nth store_frame
            split: if_splits res.splits prod.splits dest!: Set_Ret)
    qed
  qed
  then show "r = ret" and "scrapeCounter st' = scrapeCounter st" and "queries st' = queries st"
    and "length (net st') = length (net st) + 4"
    and "\<not> primary_check_fails w s q (length (net st))"
    by simp_all
qed

lemma masterDelay_Return:
  assumes "masterDelay w s q ret st = Return b st'"
  shows "\<not> b" and "scrapeCounter st' = scrapeCounter st"
    and "primary_check_fails w s q (length (net st))"
proof -
  obtain res st1 where m: "queryMasterContext w s q st = (res, st1)"
    by (cases "queryMasterContext w s q st")
  note f = queryMasterContext_frame [OF m]
  from assms m f show "\<not> b" and "scrapeCounter st' = scrapeCounter st"
    by (auto simp: masterDelay_def Let_def Log_frame
        split: sum.splits if_splits res.splits prod.splits)
  show "primary_check_fails w s q (length (net st))"
  proof (cases rule: queryMasterContext_cases [of w st s q])
    case (dial e st1)
    then show ?thesis by (simp add: primary_check_fails_def)
  next
    case (bind e st1)
    then show ?thesis by (simp add: primary_check_fails_def)
  next
    case search
    show ?thesis
    proof (cases "search w (length (net st) + 2) (LdapSyncMasterAddr s) (baseDN q)
                    (searchFilter q) (searchAttr q)")
      case (Inl e)
      then show ?thesis by (simp add: primary_check_fails_def)
    next
      case (Inr es)
      with assms search show ?thesis
        by (auto simp: masterDelay_def primary_check_fails_def Let_def index_Split_0
            hd_conv_nth
            split: if_splits res.splits prod.splits)
    qed
  qed
qed

section \<open>One turn of the loop of \<^verbatim>\<open>scrape\<close>\<close>

lemma scrape_body_cases:
  assumes "scrape_body w s i ret st \<noteq> Crash"
  obtains e q1 st1 where "scrapeQuery w s (queries st ! i) st = Ret (e, q1, st1)"
    and "scrape_body w s i ret st =
      (let st2 = st1\<lparr>queries := (queries st1)[i := q1]\<rparr>;
           ret1 = (if e \<noteq> None then False else ret);
           st3 = (if e \<noteq> None then Log WarnLevel
                       (slog s @ [(''filter'', searchFilter q1), (''base_dn'', baseDN q1)])
                       e ''query failed'' st2 else st2)
       in if searchAttr q1 = monitorReplicationFilter \<and> LdapSyncTimeDetal s
          then masterDelay w s q1 ret1 st3 else Continue ret1 st3)"
  using assms by (auto simp: scrape_body_def Let_def split: res.splits)

lemma scrape_body_Continue:
  assumes "scrape_body w s i ret st = Continue r st'"
  defines "q \<equiv> queries st ! i"
  defines "checked \<equiv> searchAttr q = monitorReplicationFilter \<and> LdapSyncTimeDetal s"
  shows "r \<longleftrightarrow> ret \<and> \<not> search_fails w s q (length (net st))"
    and "checked \<Longrightarrow> \<not> primary_check_fails w s q (length (net st) + 1)"
    and "length (net st') = length (net st) + (if checked then 5 else 1)"
    and "\<exists>q1. queries st' = (queries st)[i := q1]"
    and "scrapeCounter st' = scrapeCounter st"
proof -
  from assms(1) have "scrape_body w s i ret st \<noteq> Crash" by simp
  then obtain e q1 st1 where sq: "scrapeQuery w s (queries st ! i) st = Ret (e, q1, st1)"
    and body: "scrape_body w s i ret st =
      (let st2 = st1\<lparr>queries := (queries st1)[i := q1]\<rparr>;
           ret1 = (if e \<noteq> None then False else ret);
           st3 = (if e \<noteq> None then Log WarnLevel
                       (slog s @ [(''filter'', searchFilter q1), (''base_dn'', baseDN q1)])
                       e ''query failed'' st2 else st2)
       in if searchAttr q1 = monitorReplicationFilter \<and> LdapSyncTimeDetal s
          then masterDelay w s q1 ret1 st3 else Continue ret1 st3)"
    by (rule scrape_body_cases)
  define st2 where "st2 = st1\<lparr>queries := (queries st1)[i := q1]\<rparr>"
  define ret1 where "ret1 = (if e \<noteq> None then False else ret)"
  define st3 where "st3 = (if e \<noteq> None then Log WarnLevel
                       (slog s @ [(''filter'', searchFilter q1), (''base_dn'', baseDN q1)])
                       e ''query failed'' st2 else st2)"
  note f = scrapeQuery_frame [OF sq, folded q_def]
  have st3: "scrapeCounter st3 = scrapeCounter st" "length (net st3) = length (net st) + 1"
    "queries st3 = (queries st)[i := q1]"
    using f(1,2,3) by (simp_all add: st3_def st2_def Log_frame)
  have ret1: "ret1 \<longleftrightarrow> ret \<and> \<not> search_fails w s q (length (net st))"
    using f(5) by (auto simp: ret1_def)
  have ch: "(searchAttr q1 = monitorReplicationFilter \<and> LdapSyncTimeDetal s) = checked"
    using f(4) by (simp add: checked_def)
  have "scrape_body w s i ret st =
      (if searchAttr q1 = monitorReplicationFilter \<and> LdapSyncTimeDetal s
       then masterDelay w s q1 ret1 st3 else Continue ret1 st3)"
    by (simp only: body Let_def st3_def ret1_def st2_def)
  then have b: "(if checked then masterDelay w s q1 ret1 st3 else Continue ret1 st3)
      = Continue r st'"
    using assms(1) by (simp only: ch)
  have pq: "primary_check_fails w s q1 n = primary_check_fails w s q n" for n
    by (rule primary_check_fails_descriptor) (simp_all add: f(4))
  have all: "(r \<longleftrightarrow> ret \<and> \<not> search_fails w s q (length (net st)))
    \<and> (checked \<longrightarrow> \<not> primary_check_fails w s q (length (net st) + 1))
    \<and> length (net st') = length (net st) + (if checked then 5 else 1)
    \<and> (\<exists>q1. queries st' = (queries st)[i := q1])
    \<and> scrapeCounter st' = scrapeCounter st"
  proof (cases checked)
    case True
    with b have m: "masterDelay w s q1 ret1 st3 = Continue r st'" by simp
    from masterDelay_Continue [OF m] st3 ret1 True show ?thesis
      by (auto simp: pq)
  next
    case False
    with b have "r = ret1" "st' = st3" by simp_all
    with st3 ret1 False show ?thesis by auto
  qed
  from all show "r \<longleftrightarrow> ret \<and> \<not> search_fails w s q (length (net st))" by simp
  from all show "checked \<Longrightarrow> \<not> primary_check_fails w s q (length (net st) + 1)" by simp
  from all show "length (net st') = length (net st) + (if checked then 5 else 1)" by simp
  from all show "\<exists>q1. queries st' = (queries st)[i := q1]" by simp
  from all show "scrapeCounter st' = scrapeCounter st" by simp
qed

lemma scrape_body_Return:
  assumes "scrape_body w s i ret st = Return b st'"
  shows "\<not> b" and "scrapeCounter st' = scrapeCounter st"
    and "searchAttr (queries st ! i) = monitorReplicationFilter" and "LdapSyncTimeDetal s"
    and "primary_check_fails w s (queries st ! i) (length (net st) + 1)"
proof -
  from assms have "scrape_body w s i ret st \<noteq> Crash" by simp
  then obtain e q1 st1 where sq: "scrapeQuery w s (queries st ! i) st = Ret (e, q1, st1)"
    and body: "scrape_body w s i ret st =
      (let st2 = st1\<lparr>queries := (queries st1)[i := q1]\<rparr>;
           ret1 = (if e \<noteq> None then False else ret);
           st3 = (if e \<noteq> None then Log WarnLevel
                       (slog s @ [(''filter'', searchFilter q1), (''base_dn'', baseDN q1)])
                       e ''query failed'' st2 else st2)
       in if searchAttr q1 = monitorReplicationFilter \<and> LdapSyncTimeDetal s
          then masterDelay w s q1 ret1 st3 else Continue ret1 st3)"
    by (rule scrape_body_cases)
  define st2 where "st2 = st1\<lparr>queries := (queries st1)[i := q1]\<rparr>"
  define ret1 where "ret1 = (if e \<noteq> None then False else ret)"
  define st3 where "st3 = (if e \<noteq> None then Log WarnLevel
                       (slog s @ [(''filter'', searchFilter q1), (''base_dn'', baseDN q1)])
                       e ''query failed'' st2 else st2)"
  note f = scrapeQuery_frame [OF sq]
  have st3: "scrapeCounter st3 = scrapeCounter st" "length (net st3) = length (net st) + 1"
    using f(1,2) by (simp_all add: st3_def st2_def Log_frame)
  have "scrape_body w s i ret st =
      (if searchAttr q1 = monitorReplicationFilter \<and> LdapSyncTimeDetal s
       then masterDelay w s q1 ret1 st3 else Continue ret1 st3)"
    by (simp only: body Let_def st3_def ret1_def st2_def)
  with assms have b: "(if searchAttr q1 = monitorReplicationFilter \<and> LdapSyncTimeDetal s
       then masterDelay w s q1 ret1 st3 else Continue ret1 st3) = Return b st'"
    by simp
  then have c: "searchAttr q1 = monitorReplicationFilter" "LdapSyncTimeDetal s"
    by (auto split: if_splits)
  with b have m: "masterDelay w s q1 ret1 st3 = Return b st'"
    by simp
  have pq: "primary_check_fails w s q1 n = primary_check_fails w s (queries st ! i) n" for n
    by (rule primary_check_fails_descriptor) (simp_all add: f(4))
  from masterDelay_Return [OF m] st3 c f(4)
  show "\<not> b" and "scrapeCounter st' = scrapeCounter st"
    and "searchAttr (queries st ! i) = monitorReplicationFilter" and "LdapSyncTimeDetal s"
    and "primary_check_fails w s (queries st ! i) (length (net st) + 1)"
    by (simp_all add: pq)
qed

section \<open>The loop over the catalog\<close>

lemma scrape_loop_counter:
  "scrape_loop w s is ret st = Ret (ok, st') \<Longrightarrow> scrapeCounter st' = scrapeCounter st"
proof (induction "is" arbitrary: ret st)
  case Nil
  then show ?case by simp
next
  case (Cons i "is")
  then show ?case
    by (auto split: step.splits dest!: Cons.IH scrape_body_Continue(5) scrape_body_Return(2))
qed

lemma scrape_counter:
  "scrape w s st = Ret (ok, st') \<Longrightarrow> scrapeCounter st' = scrapeCounter st"
  by (auto simp: scrape_def Dial_def Bind_def Log_def Close_def closing_def
      split: option.splits prod.splits if_splits res.splits dest!: scrape_loop_counter)


lemma scrape_loop_fails:
  assumes "scrape_loop w s [k..<length (queries st)] ret st = Ret (ok, st')"
  shows "ok \<longleftrightarrow> ret \<and> \<not> some_query_fails w s (drop k (queries st)) (length (net st))"
  using assms
proof (induction "length (queries st) - k" arbitrary: k ret st)
  case 0
  then show ?case by simp
next
  case (Suc d)
  then have k: "k < length (queries st)" by simp
  define q where "q = queries st ! k"
  define checked where "checked = (searchAttr q = monitorReplicationFilter \<and> LdapSyncTimeDetal s)"
  have upt: "[k..<length (queries st)] = k # [Suc k..<length (queries st)]"
    using k by (simp add: upt_rec)
  have dr: "drop k (queries st) = q # drop (Suc k) (queries st)"
    using k by (simp add: q_def Cons_nth_drop_Suc)
  have spec: "some_query_fails w s (drop k (queries st)) (length (net st)) \<longleftrightarrow>
      search_fails w s q (length (net st))
      \<or> (checked \<and> primary_check_fails w s q (length (net st) + 1))
      \<or> some_query_fails w s (drop (Suc k) (queries st))
           (if checked then length (net st) + 5 else length (net st) + 1)"
    by (simp add: dr checked_def Let_def)
  show ?case
  proof (cases "scrape_body w s k ret st")
    case (Continue r st1)
    note c = scrape_body_Continue [OF Continue, folded q_def, folded checked_def]
    from c(4) obtain q1 where q1: "queries st1 = (queries st)[k := q1]" by blast
    have len: "length (queries st1) = length (queries st)" by (simp add: q1)
    have dr1: "drop (Suc k) (queries st1) = drop (Suc k) (queries st)"
      by (simp add: q1)
    from Suc.prems Continue have rest:
      "scrape_loop w s [Suc k..<length (queries st1)] r st1 = Ret (ok, st')"
      by (simp add: upt len)
    have "d = length (queries st1) - Suc k" using Suc.hyps(2) len by simp
    from Suc.hyps(1) [OF this rest]
    have "ok \<longleftrightarrow> r \<and> \<not> some_query_fails w s (drop (Suc k) (queries st))
             (if checked then length (net st) + 5 else length (net st) + 1)"
      using c(3) by (simp add: dr1 split: if_splits)
    with c(1,2) show ?thesis by (auto simp: spec)
  next
    case (Return b st1)
    note r = scrape_body_Return [OF Return, folded q_def]
    from Suc.prems Return have "ok = b" by (simp add: upt)
    with r show ?thesis by (simp add: spec checked_def)
  next
    case Crash
    with Suc.prems show ?thesis by (simp add: upt)
  qed
qed

section \<open>The turns of the loop for the initial catalog\<close>

lemma utf8_ValidString_literals:
  "utf8_ValidString ''gt''" "utf8_ValidString ''count''" "utf8_ValidString ''mod''"
  "utf8_ValidString ''delay''" "utf8_ValidString ''node1''"
  "utf8_ValidString ''cn=Bind,cn=Operations,cn=Monitor''"
  by (simp_all add: utf8_ValidString_def)

lemma utf8_ValidString_FF: "\<not> utf8_ValidString [CHR 0xFF]"
  by (simp add: utf8_ValidString_def)

lemma validLabelValues_dn:
  "validLabelValues g [d] \<longleftrightarrow> labelCount g = 1 \<and> utf8_ValidString d"
  by (auto simp: validLabelValues_def)

lemma validLabelValues_pair:
  "validLabelValues g [a, b] \<longleftrightarrow> labelCount g = 2 \<and> utf8_ValidString a \<and> utf8_ValidString b"
  by (auto simp: validLabelValues_def)

lemma setValue_labels_valid:
  "labelCount (metric q) = 1 \<Longrightarrow> dnLabelsValid q es \<Longrightarrow> \<exists>st'. setValue es q st = Ret st'"
proof (induction es arbitrary: st)
  case Nil
  then show ?case by simp
next
  case (Cons e es)
  then show ?case
    by (auto simp: dnLabelsValid_def Let_def Set_def validLabelValues_dn split: prod.splits)
qed

lemma setValue_labels_invalid:
  "labelCount (metric q) = 1 \<Longrightarrow> \<not> dnLabelsValid q es \<Longrightarrow> setValue es q st = Panic"
proof (induction es arbitrary: st)
  case Nil
  then show ?case by (simp add: dnLabelsValid_def)
next
  case (Cons e es)
  then show ?case
    by (auto simp: dnLabelsValid_def Let_def Set_def validLabelValues_dn split: prod.splits)
qed

lemma queries_update_same: "queries X = qs \<Longrightarrow> X\<lparr>queries := qs\<rparr> = X"
  by (cases X) simp

lemma scrape_body_plain:
  assumes "setData (queries st ! i) = setValue_fn"
    and "searchAttr (queries st ! i) \<noteq> monitorReplicationFilter"
  shows "scrape_body w s i ret st =
     (let q = queries st ! i;
          st0 = st\<lparr>net := net st @
                  [EvSearch (Addr s) (baseDN q) (searchFilter q) (searchAttr q)]\<rparr>
      in case search w (length (net st)) (Addr s) (baseDN q) (searchFilter q) (searchAttr q) of
           Inl e \<Rightarrow>
             Continue False
               (Log WarnLevel (slog s @ [(''filter'', searchFilter q), (''base_dn'', baseDN q)])
                  (Some e) ''query failed'' st0)
         | Inr es \<Rightarrow>
             (case setValue es q st0 of Panic \<Rightarrow> Crash | Ret st1 \<Rightarrow> Continue ret st1))"
proof -
  have a: "X\<lparr>queries := (queries X)[i := queries st ! i]\<rparr> = X" if "queries X = queries st" for X :: state
    using that by (simp add: queries_update_same)
  show ?thesis
  proof (cases "search w (length (net st)) (Addr s) (baseDN (queries st ! i))
                  (searchFilter (queries st ! i)) (searchAttr (queries st ! i))")
    case (Inl e)
    with assms show ?thesis
      by (simp add: scrape_body_def scrapeQuery_def Search_def Let_def a Log_def)
  next
    case (Inr es)
    let ?st0 = "st\<lparr>net := net st @ [EvSearch (Addr s) (baseDN (queries st ! i))
                  (searchFilter (queries st ! i)) (searchAttr (queries st ! i))]\<rparr>"
    show ?thesis
    proof (cases "setValue es (queries st ! i) ?st0")
      case Panic
      with assms Inr show ?thesis
        by (simp add: scrape_body_def scrapeQuery_def Search_def call_setData_def Let_def)
    next
      case (Ret st1)
      from setValue_frame [OF Ret] have "queries st1 = queries st" by simp
      with assms Inr Ret show ?thesis
        by (simp add: scrape_body_def scrapeQuery_def Search_def call_setData_def Let_def a)
    qed
  qed
qed

lemma scrape_body_plain_ex:
  assumes "setData (queries st ! i) = setValue_fn"
    and "searchAttr (queries st ! i) \<noteq> monitorReplicationFilter"
    and "labelCount (metric (queries st ! i)) = 1"
    and "case search w (length (net st)) (Addr s) (baseDN (queries st ! i))
                  (searchFilter (queries st ! i)) (searchAttr (queries st ! i)) of
           Inl _ \<Rightarrow> True | Inr es \<Rightarrow> dnLabelsValid (queries st ! i) es"
  shows "\<exists>r st'. scrape_body w s i ret st = Continue r st' \<and> queries st' = queries st
           \<and> net st' = net st @ [EvSearch (Addr s) (baseDN (queries st ! i))
                  (searchFilter (queries st ! i)) (searchAttr (queries st ! i))]
           \<and> (\<forall>es. search w (length (net st)) (Addr s) (baseDN (queries st ! i))
                  (searchFilter (queries st ! i)) (searchAttr (queries st ! i)) = Inr es \<longrightarrow>
                r = ret \<and>
                setValue es (queries st ! i)
                  (st\<lparr>net := net st @ [EvSearch (Addr s) (baseDN (queries st ! i))
                     (searchFilter (queries st ! i)) (searchAttr (queries st ! i))]\<rparr>) = Ret st')"
proof (cases "search w (length (net st)) (Addr s) (baseDN (queries st ! i))
               (searchFilter (queries st ! i)) (searchAttr (queries st ! i))")
  case (Inl e)
  then show ?thesis
    by (auto simp add: scrape_body_plain [OF assms(1,2)] Let_def Log_def)
next
  case (Inr es)
  let ?st0 = "st\<lparr>net := net st @ [EvSearch (Addr s) (baseDN (queries st ! i))
                (searchFilter (queries st ! i)) (searchAttr (queries st ! i))]\<rparr>"
  from assms(4) Inr have "dnLabelsValid (queries st ! i) es" by simp
  from setValue_labels_valid [OF assms(3) this, of ?st0] obtain st1 where
    sv: "setValue es (queries st ! i) ?st0 = Ret st1" by blast
  from setValue_frame [OF sv] have "queries st1 = queries st" "net st1 = net ?st0" by simp_all
  with Inr sv show ?thesis
    by (simp add: scrape_body_plain [OF assms(1,2)] Let_def)
qed

lemma scrape_body_plain_panic:
  assumes "setData (queries st ! i) = setValue_fn"
    and "searchAttr (queries st ! i) \<noteq> monitorReplicationFilter"
    and "labelCount (metric (queries st ! i)) = 1"
    and "search w (length (net st)) (Addr s) (baseDN (queries st ! i))
           (searchFilter (queries st ! i)) (searchAttr (queries st ! i)) = Inr es"
    and "\<not> dnLabelsValid (queries st ! i) es"
  shows "scrape_body w s i ret st = Crash"
  using assms(4) setValue_labels_invalid [OF assms(3,5)]
  by (simp add: scrape_body_plain [OF assms(1,2)] Let_def)

lemma upt_from_4: "4 \<le> n \<Longrightarrow> [0..<n] = 0 # 1 # 2 # 3 # [4..<n]"
proof -
  assume "4 \<le> n"
  then have "[0..<n] = [0..<4] @ [4..<n]"
    by (metis le0 upt_add_eq_append le_add_diff_inverse)
  moreover have "[0..<4] = [0, 1, 2, Suc 2]" by (simp add: upt_rec)
  ultimately show ?thesis by simp
qed

lemma queries_init_plain:
  "i < 4 \<Longrightarrow> setData (queries_init ! i) = setValue_fn
      \<and> searchAttr (queries_init ! i) \<noteq> monitorReplicationFilter
      \<and> labelCount (metric (queries_init ! i)) = 1"
proof -
  assume "i < 4"
  then consider "i = 0" | "i = 1" | "i = 2" | "i = 3" by linarith
  then show ?thesis
    by cases (simp_all add: queries_init_def monitorReplicationFilter_def monitoredInfo_def
        monitorCounter_def monitorOpCompleted_def)
qed

lemma queries_init_fields:
  "queries_init ! 0 = \<lparr>baseDN = baseDN_const, searchFilter = objectClass monitoredObject,
      searchAttr = monitoredInfo, metric = monitoredObjectGauge,
      setData = setValue_fn, RepolicateResult = Fin 0\<rparr>"
  "queries_init ! Suc 0 = \<lparr>baseDN = baseDN_const, searchFilter = objectClass monitorCounterObject,
      searchAttr = monitorCounter, metric = monitorCounterObjectGauge,
      setData = setValue_fn, RepolicateResult = Fin 0\<rparr>"
  "queries_init ! 2 = \<lparr>baseDN = opsBaseDN, searchFilter = objectClass monitorOperation,
      searchAttr = monitorOpCompleted, metric = monitorOperationGauge,
      setData = setValue_fn, RepolicateResult = Fin 0\<rparr>"
  "queries_init ! 3 = \<lparr>baseDN = opsBaseDN, searchFilter = objectClass monitorOperation,
      searchAttr = monitorOpCompleted, metric = monitorOperationGauge,
      setData = setValue_fn, RepolicateResult = Fin 0\<rparr>"
  by (simp_all add: queries_init_def)

lemma staticLabelsValid_nth:
  assumes "staticLabelsValid w s n" "k < 4"
  shows "case search w (n + k) (Addr s) (baseDN (queries_init ! k))
                (searchFilter (queries_init ! k)) (searchAttr (queries_init ! k)) of
           Inl _ \<Rightarrow> True | Inr es \<Rightarrow> dnLabelsValid (queries_init ! k) es"
proof -
  from assms(2) have "k \<in> set [0..<4]" by simp
  with assms(1) show ?thesis
    unfolding staticLabelsValid_def list_all_iff by blast
qed

lemma scrape_loop_static_prefix:
  assumes "queries st = queries_init @ rest" and "staticLabelsValid w s (length (net st))"
  shows "\<exists>r st3 st4.
     scrape_loop w s [0..<length (queries st)] ret st
       = scrape_loop w s [4..<length (queries st)] r st4
     \<and> queries st4 = queries st
     \<and> net st4 = net st @
         [EvSearch (Addr s) baseDN_const (objectClass monitoredObject) monitoredInfo,
          EvSearch (Addr s) baseDN_const (objectClass monitorCounterObject) monitorCounter,
          EvSearch (Addr s) opsBaseDN (objectClass monitorOperation) monitorOpCompleted,
          EvSearch (Addr s) opsBaseDN (objectClass monitorOperation) monitorOpCompleted]
     \<and> (\<forall>es. search w (length (net st) + 3) (Addr s) opsBaseDN
                 (objectClass monitorOperation) monitorOpCompleted = Inr es \<longrightarrow>
            setValue es (queries_init ! 3) st3 = Ret st4)"
proof -
  have len: "4 \<le> length (queries st)" using assms by (simp add: queries_init_def)
  have q: "queries st ! 0 = queries_init ! 0" "queries st ! Suc 0 = queries_init ! Suc 0"
    "queries st ! 2 = queries_init ! 2" "queries st ! 3 = queries_init ! 3"
    using assms by (simp_all add: queries_init_def nth_append)
  have qi: "queries st ! i = queries_init ! i" if "i < 4" for i
  proof -
    from that consider "i = 0" | "i = 1" | "i = 2" | "i = 3" by linarith
    then show ?thesis using q by cases simp_all
  qed
  have step: "\<exists>r st'. scrape_body w s i ret0 st0 = Continue r st' \<and> queries st' = queries st
           \<and> net st' = net st0 @ [EvSearch (Addr s) (baseDN (queries_init ! i))
                  (searchFilter (queries_init ! i)) (searchAttr (queries_init ! i))]
           \<and> (\<forall>es. search w (length (net st) + i) (Addr s) (baseDN (queries_init ! i))
                  (searchFilter (queries_init ! i)) (searchAttr (queries_init ! i)) = Inr es \<longrightarrow>
                setValue es (queries_init ! i)
                  (st0\<lparr>net := net st0 @ [EvSearch (Addr s) (baseDN (queries_init ! i))
                     (searchFilter (queries_init ! i)) (searchAttr (queries_init ! i))]\<rparr>) = Ret st')"
    if h: "queries st0 = queries st" "i < 4" "length (net st0) = length (net st) + i"
    for st0 :: state and i ret0
  proof -
    have e: "queries st0 ! i = queries_init ! i" using h(1,2) qi by simp
    note p = queries_init_plain [OF h(2)]
    note v = staticLabelsValid_nth [OF assms(2) h(2)]
    from scrape_body_plain_ex [of st0 i w s ret0, unfolded e h(3)] p v
    obtain r st' where a: "scrape_body w s i ret0 st0 = Continue r st'"
      "queries st' = queries st0"
      "net st' = net st0 @ [EvSearch (Addr s) (baseDN (queries_init ! i))
                  (searchFilter (queries_init ! i)) (searchAttr (queries_init ! i))]"
      "\<forall>es. search w (length (net st) + i) (Addr s) (baseDN (queries_init ! i))
                  (searchFilter (queries_init ! i)) (searchAttr (queries_init ! i)) = Inr es \<longrightarrow>
                r = ret0 \<and>
                setValue es (queries_init ! i)
                  (st0\<lparr>net := net st0 @ [EvSearch (Addr s) (baseDN (queries_init ! i))
                     (searchFilter (queries_init ! i)) (searchAttr (queries_init ! i))]\<rparr>) = Ret st'"
      by blast
    then show ?thesis using h(1) by auto
  qed
  from step [of st 0 ret] obtain r0 st0 where
    s0: "scrape_body w s 0 ret st = Continue r0 st0" "queries st0 = queries st"
      "net st0 = net st @ [EvSearch (Addr s) (baseDN (queries_init ! 0))
                  (searchFilter (queries_init ! 0)) (searchAttr (queries_init ! 0))]"
    by auto
  from step [of st0 1 r0] s0(2,3) obtain r1 st1 where
    s1: "scrape_body w s 1 r0 st0 = Continue r1 st1" "queries st1 = queries st"
      "net st1 = net st0 @ [EvSearch (Addr s) (baseDN (queries_init ! 1))
                  (searchFilter (queries_init ! 1)) (searchAttr (queries_init ! 1))]"
    by auto
  have l1: "length (net st1) = length (net st) + 2" using s0(3) s1(3) by simp
  from step [of st1 2 r1] s1(2) l1 obtain r2 st2 where
    s2: "scrape_body w s 2 r1 st1 = Continue r2 st2" "queries st2 = queries st"
      "net st2 = net st1 @ [EvSearch (Addr s) (baseDN (queries_init ! 2))
                  (searchFilter (queries_init ! 2)) (searchAttr (queries_init ! 2))]"
    by auto
  have l2: "length (net st2) = length (net st) + 3" using l1 s2(3) by simp
  from step [of st2 3 r2] s2(2) l2 obtain r3 st3 where
    s3: "scrape_body w s 3 r2 st2 = Continue r3 st3" "queries st3 = queries st"
      "net st3 = net st2 @ [EvSearch (Addr s) (baseDN (queries_init ! 3))
                  (searchFilter (queries_init ! 3)) (searchAttr (queries_init ! 3))]"
      "\<forall>es. search w (length (net st) + 3) (Addr s) (baseDN (queries_init ! 3))
                  (searchFilter (queries_init ! 3)) (searchAttr (queries_init ! 3)) = Inr es \<longrightarrow>
            setValue es (queries_init ! 3)
              (st2\<lparr>net := net st2 @ [EvSearch (Addr s) (baseDN (queries_init ! 3))
                 (searchFilter (queries_init ! 3)) (searchAttr (queries_init ! 3))]\<rparr>) = Ret st3"
    by auto
  have loop: "scrape_loop w s [0..<length (queries st)] ret st
       = scrape_loop w s [4..<length (queries st)] r3 st3"
    using s0(1) s1(1) s2(1) s3(1) by (simp add: upt_from_4 [OF len])
  have net3: "net st3 = net st @
         [EvSearch (Addr s) baseDN_const (objectClass monitoredObject) monitoredInfo,
          EvSearch (Addr s) baseDN_const (objectClass monitorCounterObject) monitorCounter,
          EvSearch (Addr s) opsBaseDN (objectClass monitorOperation) monitorOpCompleted,
          EvSearch (Addr s) opsBaseDN (objectClass monitorOperation) monitorOpCompleted]"
    using s0(3) s1(3) s2(3) s3(3) by (simp add: queries_init_fields)
  have last: "\<forall>es. search w (length (net st) + 3) (Addr s) opsBaseDN
                 (objectClass monitorOperation) monitorOpCompleted = Inr es \<longrightarrow>
            setValue es (queries_init ! 3)
              (st2\<lparr>net := net st2 @ [EvSearch (Addr s) (baseDN (queries_init ! 3))
                 (searchFilter (queries_init ! 3)) (searchAttr (queries_init ! 3))]\<rparr>) = Ret st3"
    using s3(4) by (simp add: queries_init_fields)
  from loop s3(2) net3 last show ?thesis by blast
qed

lemma setValue_other_dn:
  "setValue es q st = Ret st' \<Longrightarrow> d \<notin> DN ` set es \<Longrightarrow>
     gauges st' (g, [d]) = gauges st (g, [d])"
proof (induction es arbitrary: st)
  case Nil
  then show ?case by simp
next
  case (Cons e es)
  then show ?case
    by (auto simp: Let_def store_def split: prod.splits if_splits res.splits
        dest!: Set_Ret)
qed

lemma setValue_last_write:
  assumes "setValue es q st = Ret st'"
    and "distinct (map DN es)" "e \<in> set es"
    and "GetAttributeValue e (searchAttr q) \<noteq> []"
    and "ParseFloat (GetAttributeValue e (searchAttr q)) = (v, None)"
  shows "gauges st' (metric q, [DN e]) = Some v"
  using assms(1,2,3)
proof (induction es arbitrary: st)
  case Nil
  then show ?case by simp
next
  case (Cons x xs)
  show ?case
  proof (cases "x = e")
    case True
    with Cons.prems have nd: "DN e \<notin> DN ` set xs" by auto
    from Cons.prems(1) True assms(4,5) obtain st1 where
      st1: "Set (metric q) [DN e] v st = Ret st1" "setValue xs q st1 = Ret st'"
      by (auto simp: Let_def split: res.splits)
    from Set_Ret [OF st1(1)] have "gauges st1 (metric q, [DN e]) = Some v"
      by (simp add: store_def)
    with setValue_other_dn [OF st1(2) nd] show ?thesis by simp
  next
    case False
    with Cons.prems obtain st1 where "setValue xs q st1 = Ret st'"
      by (auto simp: Let_def split: prod.splits if_splits res.splits)
    with Cons.IH Cons.prems False show ?thesis by auto
  qed
qed

section \<open>Decoding a replication token\<close>

lemma parseContextCSN_fields:
  assumes "strings_Split val (CHR ''#'') = [T, C, S, M]"
    and "time_Parse T = (t, None)" "ParseFloat C = (c, None)" "ParseFloat M = (m, None)"
  shows "parseContextCSN val fs st = Ret ((float64_of_int64 (Unix t), c, S, m, None), st)"
  using assms by (simp add: parseContextCSN_def index_def)

lemma isDigit_not_sep: "isDigit c \<Longrightarrow> c \<noteq> CHR ''#''"
  by (auto simp: isDigit_def)

lemma Unix_nsec:
  "Unix \<lparr>year = y, month = mo, day = d, hour = h, minute = mi, second = sc, nsec = ns\<rparr>
     = Unix \<lparr>year = y, month = mo, day = d, hour = h, minute = mi, second = sc, nsec = 0\<rparr>"
  by (simp add: Unix_def)

lemma time_Parse_20210230:
  "time_Parse ''20210230120000Z'' = (zeroTime, Some (ParseError ''20210230120000Z''))"
  by code_simp

text \<open>
  Claim C7, as amended. Take a token \<open>T#C#S#M\<close> of four fields where \<open>T\<close> is fourteen
  digits that name a day of the calendar and a time of the day (a month from 01 to 12, a
  day of that month, an hour below 24, a minute and a second below 60), then an optional
  fraction of a second, then Z, and where \<open>C\<close> and \<open>M\<close> parse as numbers. It decodes
  without error to the epoch seconds of \<open>T\<close> (as a float64), the number \<open>C\<close>, the
  field \<open>S\<close> as it stands and the number \<open>M\<close>; nothing is logged.
\<close>

theorem C7_parseContextCSN_valid:
  assumes "isDigit y1" "isDigit y2" "isDigit y3" "isDigit y4" "isDigit m1" "isDigit m2"
    "isDigit d1" "isDigit d2" "isDigit h1" "isDigit h2" "isDigit n1" "isDigit n2"
    "isDigit s1" "isDigit s2"
    and "fr = [] \<or> (\<exists>c ds. fr = c # ds \<and> (c = CHR ''.'' \<or> c = CHR '','') \<and> ds \<noteq> []
            \<and> list_all isDigit ds)"
    and "yy = ((digitVal y1 * 10 + digitVal y2) * 10 + digitVal y3) * 10 + digitVal y4"
    and "mo = digitVal m1 * 10 + digitVal m2" "1 \<le> mo" "mo \<le> 12"
    and "dd = digitVal d1 * 10 + digitVal d2" "1 \<le> dd" "dd \<le> daysIn mo yy"
    and "hh = digitVal h1 * 10 + digitVal h2" "hh < 24"
    and "mi = digitVal n1 * 10 + digitVal n2" "mi < 60"
    and "ss = digitVal s1 * 10 + digitVal s2" "ss < 60"
    and "T = y1 # y2 # y3 # y4 # m1 # m2 # d1 # d2 # h1 # h2 # n1 # n2 # s1 # s2 # fr @ ''Z''"
    and "CHR ''#'' \<notin> set C" "CHR ''#'' \<notin> set S" "CHR ''#'' \<notin> set M"
    and "ParseFloat C = (c, None)" "ParseFloat M = (m, None)"
  shows "parseContextCSN (T @ ''#'' @ C @ ''#'' @ S @ ''#'' @ M) fs st =
           Ret ((float64_of_int64
                   (Unix \<lparr>year = yy, month = mo, day = dd, hour = hh, minute = mi, second = ss,
                          nsec = 0\<rparr>),
                 c, S, m, None), st)"
proof -
  have fr: "CHR ''#'' \<notin> set fr"
  proof (cases "fr = []")
    case True
    then show ?thesis by simp
  next
    case False
    with assms(15) obtain c ds where "fr = c # ds" "c = CHR ''.'' \<or> c = CHR '',''"
      "list_all isDigit ds" by blast
    then show ?thesis using isDigit_not_sep by (auto simp: list_all_iff)
  qed
  have T: "CHR ''#'' \<notin> set T"
    using assms(1-14) fr isDigit_not_sep by (auto simp: assms(29))
  from time_Parse_wellformed [OF assms(1-28)] obtain ns where
    tp: "time_Parse T =
      (\<lparr>year = yy, month = mo, day = dd, hour = hh, minute = mi, second = ss, nsec = ns\<rparr>, None)"
    unfolding assms(29) by blast
  have sp: "strings_Split (T @ ''#'' @ C @ ''#'' @ S @ ''#'' @ M) (CHR ''#'') = [T, C, S, M]"
    using T assms(30-32) by (simp add: strings_Split_append strings_Split_no_sep)
  from parseContextCSN_fields [OF sp tp assms(33,34)] show ?thesis
    by (simp only: Unix_nsec [of yy mo dd hh mi ss ns])
qed

theorem C7_parseContextCSN_valid_witness:
  "parseContextCSN ''20211001120000.123456Z#5#node1#2'' [] init_state =
     Ret ((Fin 1633089600, Fin 5, ''node1'', Fin 2, None), init_state)"
proof -
  have d: "isDigit (CHR ''0'')" "isDigit (CHR ''1'')" "isDigit (CHR ''2'')"
    "list_all isDigit ''123456''"
    by code_simp+
  have v: "digitVal (CHR ''0'') = 0" "digitVal (CHR ''1'') = 1" "digitVal (CHR ''2'') = 2"
    by (simp_all add: digitVal_def)
  have fr: "''.123456'' = [] \<or> (\<exists>c ds. ''.123456'' = c # ds \<and> (c = CHR ''.'' \<or> c = CHR '','')
       \<and> ds \<noteq> [] \<and> list_all isDigit ds)"
    using d(4) by blast
  have "parseContextCSN (''20211001120000.123456Z'' @ ''#'' @ ''5'' @ ''#'' @ ''node1'' @ ''#'' @ ''2'')
          [] init_state =
        Ret ((float64_of_int64
                (Unix \<lparr>year = 2021, month = 10, day = 1, hour = 12, minute = 0, second = 0,
                       nsec = 0\<rparr>),
              Fin 5, ''node1'', Fin 2, None), init_state)"
    by (rule C7_parseContextCSN_valid [where fr = "''.123456''"
          and ?y1.0 = "CHR ''2''" and ?y2.0 = "CHR ''0''" and ?y3.0 = "CHR ''2''" and ?y4.0 = "CHR ''1''"
          and ?m1.0 = "CHR ''1''" and ?m2.0 = "CHR ''0''" and ?d1.0 = "CHR ''0''" and ?d2.0 = "CHR ''1''"
          and ?h1.0 = "CHR ''1''" and ?h2.0 = "CHR ''2''" and ?n1.0 = "CHR ''0''" and ?n2.0 = "CHR ''0''"
          and ?s1.0 = "CHR ''0''" and ?s2.0 = "CHR ''0''",
          OF d(3) d(1) d(3) d(2) d(2) d(1) d(1) d(2) d(2) d(3) d(1) d(1) d(1) d(1) fr])
       (simp_all add: v daysIn_def ParseFloat_5 ParseFloat_2)
  then show ?thesis
    by (simp add: Unix_20211001 float64_of_1633089600)
qed

text \<open>
  Claim C7 as it is stated: the first field of \<open>20210230120000Z#5#node1#2\<close> is
  fourteen digits and Z, the second and the fourth are numbers, and the token decodes to
  an error, with the warning \<open>unexpected gt value\<close>: there is no 30th of February.
\<close>

theorem C7_counterexample:
  "parseContextCSN ''20210230120000Z#5#node1#2'' [] init_state =
     Ret ((float64_of_int64 (Unix zeroTime), Fin 0, [], Fin 0,
           Some (ParseError ''20210230120000Z'')),
          Log WarnLevel [] (Some (ParseError ''20210230120000Z'')) ''unexpected gt value''
            init_state)"
  by (simp add: parseContextCSN_def index_def time_Parse_20210230)

lemma parseContextCSN_count_fails:
  assumes "strings_Split val (CHR ''#'') = v0 # v1 # rest"
    and "time_Parse v0 = (t, None)" "ParseFloat v1 = (c, Some e)"
  shows "parseContextCSN val fs st =
     Ret ((float64_of_int64 (Unix t), c, [], Fin 0, Some e),
          Log WarnLevel fs (Some e) ''unexpected count value'' st)"
  using assms by (simp add: parseContextCSN_def index_def)

lemma parseContextCSN_mod:
  assumes "strings_Split val (CHR ''#'') = v0 # v1 # sid # v3 # rest"
    and "time_Parse v0 = (t, None)" "ParseFloat v1 = (c, None)" "ParseFloat v3 = (m, e)"
  shows "parseContextCSN val fs st =
     Ret ((float64_of_int64 (Unix t), c, sid, m, e),
          if e \<noteq> None then Log WarnLevel fs e ''unexpected mod value'' st else st)"
  using assms by (auto simp add: parseContextCSN_def index_def)

lemma Set_pair:
  "utf8_ValidString l \<Longrightarrow>
   Set g [sid, l] v st =
     (if labelCount g = 2 \<and> utf8_ValidString sid then Ret (store g [sid, l] v st) else Panic)"
  by (simp add: Set_def validLabelValues_pair)

lemma scrape_body_search_ok:
  assumes "search w (length (net st)) (Addr s) (baseDN (queries st ! i))
             (searchFilter (queries st ! i)) (searchAttr (queries st ! i)) = Inr entries"
    and "call_setData entries (queries st ! i)
           (st\<lparr>net := net st @ [EvSearch (Addr s) (baseDN (queries st ! i))
              (searchFilter (queries st ! i)) (searchAttr (queries st ! i))]\<rparr>) = Ret (q1, st1)"
  shows "scrape_body w s i ret st =
     (if searchAttr q1 = monitorReplicationFilter \<and> LdapSyncTimeDetal s
      then masterDelay w s q1 ret (st1\<lparr>queries := (queries st1)[i := q1]\<rparr>)
      else Continue ret (st1\<lparr>queries := (queries st1)[i := q1]\<rparr>))"
  using assms by (simp add: scrape_body_def scrapeQuery_def Search_def Let_def)

section \<open>Publishing a replication token\<close>

text \<open>
  Claim C1, as amended. Take an entry whose token has at least two fields, the first of
  which parses as a time. If the second field is not a number, \<open>setReplicationValue\<close>
  publishes nothing for the entry (no gt, count or mod point), leaves the descriptor as
  it was, logs the warning \<open>unexpected count value\<close> with the filter, the attribute
  and the raw value, and goes on with the next entry; a turn of the loop of \<open>scrape\<close>
  whose search finds just this entry hands \<open>ret\<close> on unchanged, so the cycle is not
  failed. If the second field is a number, the token has four fields, and the fourth is
  not a number, again only a warning is logged. The three points are written together,
  with the cached timestamp, only when all of the fields have parsed, and then when the
  gauge has two labels and the server id is valid UTF-8; with any other server id the
  metrics library panics.
\<close>

theorem C1_token_points_all_or_nothing:
  assumes "GetAttributeValue entry (searchAttr q) = val" "val \<noteq> []"
    and "strings_Split val (CHR ''#'') = v0 # v1 # rest"
    and "time_Parse v0 = (t, None)" "ParseFloat v1 = (c, e1)"
  shows "(e1 \<noteq> None \<longrightarrow>
            setReplicationValue (entry # entries) q st =
              setReplicationValue entries q
                (Log WarnLevel (logFields q val) e1 ''unexpected count value'' st))
       \<and> (e1 \<noteq> None \<and> queries st ! i = q \<and> setData q = setReplicationValue_fn \<and>
          search w (length (net st)) (Addr s) (baseDN q) (searchFilter q) (searchAttr q)
            = Inr [entry] \<longrightarrow>
          scrape_body w s i ret st =
            (let st1 = Log WarnLevel (logFields q val) e1 ''unexpected count value''
                         (st\<lparr>net := net st @
                            [EvSearch (Addr s) (baseDN q) (searchFilter q) (searchAttr q)]\<rparr>)
             in if searchAttr q = monitorReplicationFilter \<and> LdapSyncTimeDetal s
                then masterDelay w s q ret st1 else Continue ret st1))
       \<and> (\<forall>sid v3 rest' m e3.
            e1 = None \<and> rest = sid # v3 # rest' \<and> ParseFloat v3 = (m, e3) \<longrightarrow>
            setReplicationValue (entry # entries) q st =
              (if e3 \<noteq> None then
                 setReplicationValue entries q
                   (Log WarnLevel (logFields q val) e3 ''unexpected mod value'' st)
               else if labelCount (metric q) = 2 \<and> utf8_ValidString sid then
                 setReplicationValue entries (q\<lparr>RepolicateResult := float64_of_int64 (Unix t)\<rparr>)
                   (store (metric q) [sid, ''mod''] m
                     (store (metric q) [sid, ''count''] c
                       (store (metric q) [sid, ''gt''] (float64_of_int64 (Unix t)) st)))
               else Panic))"
proof -
  have a: "setReplicationValue (entry # entries) q st' =
           setReplicationValue entries q
             (Log WarnLevel (logFields q val) e1 ''unexpected count value'' st')"
    if "e1 \<noteq> None" for st' entries
  proof -
    from that obtain e where e: "e1 = Some e" by auto
    show ?thesis
      using assms(1,2) parseContextCSN_count_fails [OF assms(3,4) assms(5) [unfolded e]]
      by (simp add: e)
  qed
  have b: "scrape_body w s i ret st =
            (let st1 = Log WarnLevel (logFields q val) e1 ''unexpected count value''
                         (st\<lparr>net := net st @
                            [EvSearch (Addr s) (baseDN q) (searchFilter q) (searchAttr q)]\<rparr>)
             in if searchAttr q = monitorReplicationFilter \<and> LdapSyncTimeDetal s
                then masterDelay w s q ret st1 else Continue ret st1)"
    if h: "e1 \<noteq> None" "queries st ! i = q" "setData q = setReplicationValue_fn"
       "search w (length (net st)) (Addr s) (baseDN q) (searchFilter q) (searchAttr q)
          = Inr [entry]"
  proof -
    let ?st0 = "st\<lparr>net := net st @
                   [EvSearch (Addr s) (baseDN q) (searchFilter q) (searchAttr q)]\<rparr>"
    let ?st1 = "Log WarnLevel (logFields q val) e1 ''unexpected count value'' ?st0"
    have c: "call_setData [entry] q ?st0 = Ret (q, ?st1)"
      using h(3) a [OF h(1)] by (simp add: call_setData_def)
    have d: "?st1\<lparr>queries := (queries ?st1)[i := q]\<rparr> = ?st1"
    proof -
      have "(queries st)[i := q] = queries st"
        using h(2) by (metis list_update_id)
      then show ?thesis by (simp add: Log_def)
    qed
    have s': "search w (length (net st)) (Addr s) (baseDN (queries st ! i))
                (searchFilter (queries st ! i)) (searchAttr (queries st ! i)) = Inr [entry]"
      using h(2,4) by simp
    have c': "call_setData [entry] (queries st ! i)
           (st\<lparr>net := net st @ [EvSearch (Addr s) (baseDN (queries st ! i))
              (searchFilter (queries st ! i)) (searchAttr (queries st ! i))]\<rparr>) = Ret (q, ?st1)"
      using h(2) c by simp
    show ?thesis
      using scrape_body_search_ok [OF s' c', of ret] by (simp only: d Let_def)
  qed
  have c: "setReplicationValue (entry # entries) q st =
              (if e3 \<noteq> None then
                 setReplicationValue entries q
                   (Log WarnLevel (logFields q val) e3 ''unexpected mod value'' st)
               else if labelCount (metric q) = 2 \<and> utf8_ValidString sid then
                 setReplicationValue entries (q\<lparr>RepolicateResult := float64_of_int64 (Unix t)\<rparr>)
                   (store (metric q) [sid, ''mod''] m
                     (store (metric q) [sid, ''count''] c
                       (store (metric q) [sid, ''gt''] (float64_of_int64 (Unix t)) st)))
               else Panic)"
    if h: "e1 = None" "rest = sid # v3 # rest'" "ParseFloat v3 = (m, e3)"
    for sid v3 rest' m e3
  proof -
    have "strings_Split val (CHR ''#'') = v0 # v1 # sid # v3 # rest'"
      using assms(3) h(2) by simp
    from parseContextCSN_mod [OF this assms(4) assms(5) [unfolded h(1)] h(3)]
    show ?thesis
      using assms(1,2) by (simp add: Let_def Set_pair utf8_ValidString_literals)
  qed
  show ?thesis using a b c by blast
qed

lemma Split_bad_count:
  "strings_Split ''20211001120000Z#abc#node1#2'' (CHR ''#'') =
     ''20211001120000Z'' # ''abc'' # [''node1'', ''2'']"
  by simp

lemma addReplicationQueries_queries:
  "queries (addReplicationQueries s st) = queries st @ map replicationQuery (Sync s)"
proof -
  have "queries (foldl (\<lambda>st q. st\<lparr>queries := queries st @ [replicationQuery q]\<rparr>) st xs)
          = queries st @ map replicationQuery xs" for xs
    by (induction xs arbitrary: st) simp_all
  then show ?thesis by (simp add: addReplicationQueries_def)
qed

lemma queries_example:
  "queries (addReplicationQueries example_scraper init_state) =
     queries_init @ [replicationQuery ''dc=example,dc=com'']"
  by (simp add: addReplicationQueries_def example_scraper_def init_state_def)

theorem C1_token_points_all_or_nothing_witness:
  "setReplicationValue [token_entry ''20211001120000Z#abc#node1#2'']
       (replicationQuery ''dc=example,dc=com'')
       (addReplicationQueries example_scraper init_state) =
     Ret (replicationQuery ''dc=example,dc=com'',
          Log WarnLevel
            (logFields (replicationQuery ''dc=example,dc=com'') ''20211001120000Z#abc#node1#2'')
            (Some (ErrSyntax ''abc'')) ''unexpected count value''
            (addReplicationQueries example_scraper init_state))
   \<and> scrape_body (token_world ''20211001120000Z#abc#node1#2'') example_scraper 4 True
       (addReplicationQueries example_scraper init_state) =
     Continue True
       (Log WarnLevel
          (logFields (replicationQuery ''dc=example,dc=com'') ''20211001120000Z#abc#node1#2'')
          (Some (ErrSyntax ''abc'')) ''unexpected count value''
          ((addReplicationQueries example_scraper init_state)
             \<lparr>net := [EvSearch ''localhost:389'' ''dc=example,dc=com'' ''(objectClass=*)''
                        ''contextCSN'']\<rparr>))
   \<and> setReplicationValue [token_entry ''20211001120000.123456Z#5#node1#2'']
       (replicationQuery ''dc=example,dc=com'')
       (addReplicationQueries example_scraper init_state) =
     Ret ((replicationQuery ''dc=example,dc=com'')\<lparr>RepolicateResult := Fin 1633089600\<rparr>,
          store monitorReplicationGauge [''node1'', ''mod''] (Fin 2)
            (store monitorReplicationGauge [''node1'', ''count''] (Fin 5)
              (store monitorReplicationGauge [''node1'', ''gt''] (Fin 1633089600)
                (addReplicationQueries example_scraper init_state))))"
proof -
  let ?val = "''20211001120000Z#abc#node1#2''"
  let ?ok = "''20211001120000.123456Z#5#node1#2''"
  let ?q = "replicationQuery ''dc=example,dc=com''"
  let ?st = "addReplicationQueries example_scraper init_state"
  have h1: "GetAttributeValue (token_entry v) (searchAttr ?q) = v" for v
    by (simp add: GetAttributeValue_def token_entry_def replicationQuery_def
        monitorReplicationFilter_def)
  have h2: "?val \<noteq> []" "?ok \<noteq> []" by simp_all
  have q4: "queries ?st ! 4 = ?q"
    by (simp add: queries_example queries_init_def)
  have net0: "net ?st = []"
    by (simp add: addReplicationQueries_def example_scraper_def init_state_def)
  have srch: "search (token_world ?val) (length (net ?st)) (Addr example_scraper) (baseDN ?q)
                (searchFilter ?q) (searchAttr ?q) = Inr [token_entry ?val]"
    by (simp add: token_world_def replicationQuery_def monitorReplicationFilter_def)
  have sp: "strings_Split ?ok (CHR ''#'') = ''20211001120000.123456Z'' # ''5'' # [''node1'', ''2'']"
    by simp
  from C1_token_points_all_or_nothing [OF h1 h2(1) Split_bad_count time_Parse_20211001
      ParseFloat_abc, of "[]" ?st 4 "token_world ?val" example_scraper True]
  have bad: "setReplicationValue [token_entry ?val] ?q ?st =
     Ret (?q, Log WarnLevel (logFields ?q ?val) (Some (ErrSyntax ''abc''))
                ''unexpected count value'' ?st)
   \<and> scrape_body (token_world ?val) example_scraper 4 True ?st =
     Continue True
       (Log WarnLevel (logFields ?q ?val) (Some (ErrSyntax ''abc'')) ''unexpected count value''
          (?st\<lparr>net := [EvSearch ''localhost:389'' ''dc=example,dc=com'' ''(objectClass=*)''
                        ''contextCSN'']\<rparr>))"
    using q4 srch net0
    by (simp add: replicationQuery_def example_scraper_def objectClass_def
        monitorReplicationFilter_def)
  from C1_token_points_all_or_nothing [OF h1 h2(2) sp time_Parse_20211001_frac ParseFloat_5,
      THEN conjunct2, THEN conjunct2, rule_format, of "''node1''" "''2''" "[]" "Fin 2" None
      "[]" ?st]
  have good: "setReplicationValue [token_entry ?ok] ?q ?st =
     Ret (?q\<lparr>RepolicateResult := Fin 1633089600\<rparr>,
          store monitorReplicationGauge [''node1'', ''mod''] (Fin 2)
            (store monitorReplicationGauge [''node1'', ''count''] (Fin 5)
              (store monitorReplicationGauge [''node1'', ''gt''] (Fin 1633089600) ?st)))"
    by (simp add: ParseFloat_2 Unix_20211001 float64_of_1633089600 replicationQuery_def
        utf8_ValidString_literals)
  from bad good show ?thesis by simp
qed

text \<open>
  The token \<open>20211001120000Z#abc#node1#2\<close> of claim C1 as it is stated: the entry is
  abandoned with a warning, and no gt point is published for \<open>node1\<close>.
\<close>

theorem C1_counterexample:
  "setReplicationValue [token_entry ''20211001120000Z#abc#node1#2'']
       (replicationQuery ''dc=example,dc=com'') init_state =
     Ret (replicationQuery ''dc=example,dc=com'',
          Log WarnLevel
            [(''filter'', ''(objectClass=*)''), (''attr'', ''contextCSN''),
             (''value'', ''20211001120000Z#abc#node1#2'')]
            (Some (ErrSyntax ''abc'')) ''unexpected count value'' init_state)
   \<and> gauges (Log WarnLevel
            [(''filter'', ''(objectClass=*)''), (''attr'', ''contextCSN''),
             (''value'', ''20211001120000Z#abc#node1#2'')]
            (Some (ErrSyntax ''abc'')) ''unexpected count value'' init_state)
        (monitorReplicationGauge, [''node1'', ''gt'']) = None"
  by (simp add: parseContextCSN_def index_def time_Parse_20211001 ParseFloat_abc
      Split_bad_count GetAttributeValue_def token_entry_def replicationQuery_def
      monitorReplicationFilter_def logFields_def objectClass_def Log_def init_state_def
      del: strings_Split.simps)

lemma scrape_body_short_token:
  assumes "queries st ! i = q" "setData q = setReplicationValue_fn"
    and "search w (length (net st)) (Addr s) (baseDN q) (searchFilter q) (searchAttr q)
           = Inr [entry]"
    and "GetAttributeValue entry (searchAttr q) = ''20211001120000Z''"
  shows "scrape_body w s i ret st = Crash"
  using assms
  by (simp add: scrape_body_def scrapeQuery_def Search_def call_setData_def
      parseContextCSN_def index_def time_Parse_20211001)

lemma staticLabelsValid_token_world: "staticLabelsValid (token_world val) s n"
  by (simp add: staticLabelsValid_def token_world_def queries_init_def dnLabelsValid_def
      monitoredInfo_def monitorCounter_def monitorOpCompleted_def upt_rec)

text \<open>
  Claim C2: a token whose first field parses as a time and which has fewer than four
  fields. \<open>parseContextCSN\<close> reads the second field of a one-field token,
  \<open>setReplicationDelayValue\<close> its third field, and the index is out of range: the
  process panics, here in the first cycle of a scraper whose peer reports that token.
\<close>

theorem C2_short_token_panics:
  "parseContextCSN ''20211001120000Z'' fs st = Panic
   \<and> setReplicationDelayValue [token_entry ''20211001120000Z''] (replicationQuery b) st = Panic
   \<and> Start [token_world ''20211001120000Z''] example_scraper init_state = Panic"
proof -
  let ?w = "token_world ''20211001120000Z''"
  let ?q = "replicationQuery ''dc=example,dc=com''"
  define st1 where "st1 =
    (Log InfoLevel [(''component'', ''scraper''), (''addr'', ''tcp://localhost:389'')] None
       ''starting monitor loop'' (addReplicationQueries example_scraper init_state))
     \<lparr>net := [EvDial ''tcp'' ''localhost:389'']\<rparr>"
  have q1: "queries st1 = queries_init @ [?q]"
    by (simp add: st1_def Log_def queries_example)
  have len: "length (queries st1) = 5"
    by (simp add: q1 queries_init_def)
  from scrape_loop_static_prefix [OF q1 staticLabelsValid_token_world,
      where s = example_scraper and ret = True]
  obtain r st4 where
    loop: "scrape_loop ?w example_scraper [0..<length (queries st1)] True st1
             = scrape_loop ?w example_scraper [4..<length (queries st1)] r st4"
    and q4: "queries st4 = queries st1"
    by blast
  have "queries st4 ! 4 = ?q"
    by (simp add: q4 q1 queries_init_def)
  then have "scrape_body ?w example_scraper 4 r st4 = Crash"
    by (rule scrape_body_short_token [where entry = "token_entry ''20211001120000Z''"])
       (simp_all add: replicationQuery_def token_world_def monitorReplicationFilter_def
          GetAttributeValue_def token_entry_def)
  then have "scrape_loop ?w example_scraper [4..<length (queries st1)] r st4 = Panic"
    by (simp add: len upt_rec)
  then have "scrape_loop ?w example_scraper [0..<length (queries st1)] True st1 = Panic"
    by (simp only: loop)
  then have "scrape ?w example_scraper
      (Log InfoLevel [(''component'', ''scraper''), (''addr'', ''tcp://localhost:389'')] None
         ''starting monitor loop'' (addReplicationQueries example_scraper init_state)) = Panic"
    by (simp add: scrape_def Dial_def token_world_def example_scraper_def closing_def
        addReplicationQueries_def init_state_def Log_def st1_def)
  then have "Start [?w] example_scraper init_state = Panic"
    by (simp add: Start_def runOnce_def example_scraper_def)
  then show ?thesis
    by (simp add: parseContextCSN_def index_def time_Parse_20211001 token_entry_def
        replicationQuery_def monitorReplicationFilter_def GetAttributeValue_def)
qed

section \<open>Building the catalog\<close>

lemma filter_replication_static:
  "filter (\<lambda>q. searchAttr q = monitorReplicationFilter) queries_init = []"
  by (simp add: queries_init_def monitorReplicationFilter_def monitoredInfo_def
      monitorCounter_def monitorOpCompleted_def)

lemma filter_replication_peers:
  "filter (\<lambda>q. searchAttr q = monitorReplicationFilter) (map replicationQuery xs)
     = map replicationQuery xs"
  by (induction xs) (simp_all add: replicationQuery_def)

text \<open>
  Claim C8, as amended. Each construction appends one replication descriptor for each
  configured peer, in the order of the peers, whatever the catalog holds already: after
  \<open>n\<close> constructions on the initial catalog the replication descriptors are \<open>n\<close>
  copies of the peers' descriptors, so there is one descriptor for each peer after
  exactly one construction.
\<close>

theorem C8_construction_appends:
  "queries ((addReplicationQueries s ^^ n) st) =
     queries st @ concat (replicate n (map replicationQuery (Sync s)))
   \<and> filter (\<lambda>q. searchAttr q = monitorReplicationFilter)
       (queries ((addReplicationQueries s ^^ n) init_state))
     = concat (replicate n (map replicationQuery (Sync s)))"
proof -
  have swap: "concat (replicate k xs) @ xs = xs @ concat (replicate k xs)"
    for xs :: "query list" and k
    by (induction k) simp_all
  have a: "queries ((addReplicationQueries s ^^ k) st') =
     queries st' @ concat (replicate k (map replicationQuery (Sync s)))" for k st'
    by (induction k) (simp_all add: addReplicationQueries_queries swap)
  have b: "filter (\<lambda>q. searchAttr q = monitorReplicationFilter)
             (concat (replicate k (map replicationQuery xs)))
           = concat (replicate k (map replicationQuery xs))" for xs k
    by (induction k) (simp_all add: filter_replication_peers)
  show ?thesis
    by (simp add: a b filter_replication_static init_state_def)
qed

text \<open>
  Claim C8 as it is stated: two constructions for one peer leave two replication
  descriptors for that peer.
\<close>

theorem C8_counterexample:
  "map baseDN (filter (\<lambda>q. searchAttr q = monitorReplicationFilter)
     (queries (addReplicationQueries example_scraper
                (addReplicationQueries example_scraper init_state))))
   = [''dc=example,dc=com'', ''dc=example,dc=com'']"
  by code_simp

section \<open>The outcome of a cycle\<close>

text \<open>
  Claim C3, as amended. A cycle that completes returns \<open>false\<close> exactly when the
  directory servers answer with a failure: the dial of the cycle's connection or, with
  credentials, its bind is answered with an error; or the search of some descriptor is;
  or, when the delay is checked, the check against the primary that follows a
  replication descriptor fails (its dial, bind or search is answered with an error, the
  search finds no entry, or the first entry's timestamp does not parse). In every other
  case, whatever attributes did not parse, it returns \<open>true\<close>.
\<close>

theorem C3_cycle_outcome:
  assumes "scrape w s st = Ret (ok, st')"
  shows "\<not> ok \<longleftrightarrow> cycle_fails w s (queries st) (length (net st))"
proof (cases "dial w (length (net st)) (Net s) (Addr s)")
  case (Some e)
  with assms have "\<not> ok"
    by (auto simp: scrape_def Dial_def)
  with Some show ?thesis by (simp add: cycle_fails_def)
next
  case None
  show ?thesis
  proof (cases "User s \<noteq> [] \<and> Pass s \<noteq> []")
    case True
    show ?thesis
    proof (cases "bind w (length (net st) + 1) (Addr s) (User s) (Pass s)")
      case (Some e)
      with assms None True have "\<not> ok"
        by (auto simp: scrape_def Dial_def Bind_def closing_def)
      with Some True show ?thesis by (simp add: cycle_fails_def)
    next
      case N2: None
      define st2 where
        "st2 = st\<lparr>net := net st @ [EvDial (Net s) (Addr s), EvBind (Addr s) (User s) (Pass s)]\<rparr>"
      from assms None True N2 obtain st3 where
        "scrape_loop w s [0..<length (queries st2)] True st2 = Ret (ok, st3)"
        by (auto simp: scrape_def Dial_def Bind_def closing_def st2_def split: res.splits)
      from scrape_loop_fails [OF this]
      have "ok \<longleftrightarrow> \<not> some_query_fails w s (queries st) (length (net st) + 2)"
        by (simp add: st2_def)
      with None True N2 show ?thesis by (simp add: cycle_fails_def)
    qed
  next
    case False
    define st2 where "st2 = st\<lparr>net := net st @ [EvDial (Net s) (Addr s)]\<rparr>"
    from assms None False obtain st3 where
      "scrape_loop w s [0..<length (queries st2)] True st2 = Ret (ok, st3)"
      by (auto simp: scrape_def Dial_def closing_def st2_def split: res.splits)
    from scrape_loop_fails [OF this]
    have "ok \<longleftrightarrow> \<not> some_query_fails w s (queries st) (length (net st) + 1)"
      by (simp add: st2_def)
    with None False show ?thesis by (auto simp: cycle_fails_def)
  qed
qed

theorem C3_cycle_outcome_witness:
  "(\<exists>st'. scrape (primary_world ''19700101001650Z#7#node1#0'' None) delay_scraper
            (addReplicationQueries delay_scraper init_state) = Ret (True, st'))
   \<and> \<not> cycle_fails (primary_world ''19700101001650Z#7#node1#0'' None) delay_scraper
         (queries (addReplicationQueries delay_scraper init_state)) 0
   \<and> (\<exists>st'. scrape (primary_world ''1970#7#node1#0'' None) delay_scraper
            (addReplicationQueries delay_scraper init_state) = Ret (False, st'))
   \<and> cycle_fails (primary_world ''1970#7#node1#0'' None) delay_scraper
         (queries (addReplicationQueries delay_scraper init_state)) 0"
proof -
  let ?w = "primary_world ''19700101001650Z#7#node1#0'' None"
  let ?v = "primary_world ''1970#7#node1#0'' None"
  let ?st = "addReplicationQueries delay_scraper init_state"
  have n: "length (net ?st) = 0"
    by (simp add: addReplicationQueries_def delay_scraper_def example_scraper_def init_state_def)
  have "case scrape ?w delay_scraper ?st of Panic \<Rightarrow> False | Ret _ \<Rightarrow> True"
    by code_simp
  then obtain ok st' where r: "scrape ?w delay_scraper ?st = Ret (ok, st')"
    by (auto split: res.splits)
  have f: "\<not> cycle_fails ?w delay_scraper (queries ?st) 0"
    by code_simp
  from C3_cycle_outcome [OF r] f have "ok" by (simp add: n)
  with r have a: "\<exists>st'. scrape ?w delay_scraper ?st = Ret (True, st')" by auto
  have "case scrape ?v delay_scraper ?st of Panic \<Rightarrow> False | Ret _ \<Rightarrow> True"
    by code_simp
  then obtain ok2 st2 where r2: "scrape ?v delay_scraper ?st = Ret (ok2, st2)"
    by (auto split: res.splits)
  have f2: "cycle_fails ?v delay_scraper (queries ?st) 0"
    by code_simp
  from C3_cycle_outcome [OF r2] f2 have "\<not> ok2" by (simp add: n)
  with r2 have b: "\<exists>st'. scrape ?v delay_scraper ?st = Ret (False, st')" by auto
  from a f b f2 show ?thesis by simp
qed

text \<open>
  Claim C3 as it is stated: the dial succeeds, no bind is made, the delay is not checked,
  every search fails, and the cycle's outcome is failure.
\<close>

theorem C3_counterexample:
  "dial failing_search_world 0 ''tcp'' ''localhost:389'' = None
   \<and> User example_scraper = [] \<and> \<not> LdapSyncTimeDetal example_scraper
   \<and> map_res fst (scrape failing_search_world example_scraper init_state) = Ret False"
  by code_simp

text \<open>
  Claim C6. A cycle that completes increments the scrape counter once: the label
  \<open>ok\<close> when \<open>scrape\<close> returned \<open>true\<close>, the label \<open>fail\<close> when it returned
  \<open>false\<close>; every other label, and the other of the two, stays as it was.
\<close>

theorem C6_one_increment_per_cycle:
  assumes "runOnce w s st = Ret st'"
  shows "\<exists>ok st1. scrape w s st = Ret (ok, st1) \<and>
           scrapeCounter st' =
             (scrapeCounter st)((if ok then ''ok'' else ''fail'') :=
                scrapeCounter st (if ok then ''ok'' else ''fail'') + 1)"
proof -
  from assms obtain ok st1 where s: "scrape w s st = Ret (ok, st1)" and st': "st' = Inc (if ok then ''ok'' else ''fail'') st1"
    by (auto simp: runOnce_def split: res.splits)
  from scrape_counter [OF s] st' have "scrapeCounter st' =
             (scrapeCounter st)((if ok then ''ok'' else ''fail'') :=
                scrapeCounter st (if ok then ''ok'' else ''fail'') + 1)"
    by (simp add: Inc_def)
  with s show ?thesis by blast
qed

theorem C6_one_increment_per_cycle_witness:
  "\<exists>st'. runOnce failing_search_world example_scraper init_state = Ret st'
     \<and> scrapeCounter st' ''ok'' + scrapeCounter st' ''fail'' = 1"
proof -
  have "case runOnce failing_search_world example_scraper init_state of
          Panic \<Rightarrow> False | Ret _ \<Rightarrow> True"
    by code_simp
  then obtain st' where r: "runOnce failing_search_world example_scraper init_state = Ret st'"
    by (auto split: res.splits)
  from C6_one_increment_per_cycle [OF r] r show ?thesis
    by (auto simp: init_state_def)
qed

section \<open>A search that fails\<close>




section \<open>The delay against the primary\<close>


lemma queryMasterContext_bind_fails:
  assumes "dial w (length (net st)) (Net s) (LdapSyncMasterAddr s) = None"
    and "bind w (Suc (length (net st))) (LdapSyncMasterAddr s) (User s) (Pass s) = Some e"
  shows "queryMasterContext w s q st =
     (Inl e,
      Log ErrorLevel (slog s) (Some e) ''bind master failed''
        (st\<lparr>net := net st @ [EvDial (Net s) (LdapSyncMasterAddr s),
                  EvBind (LdapSyncMasterAddr s) (User s) (Pass s)]\<rparr>)
        \<lparr>net := net st @ [EvDial (Net s) (LdapSyncMasterAddr s),
                  EvBind (LdapSyncMasterAddr s) (User s) (Pass s),
                  EvClose (LdapSyncMasterAddr s)]\<rparr>)"
  using assms
  by (simp add: queryMasterContext_def Dial_def Bind_def Search_def Close_def Log_def)









lemma masterDelay_bind_refused:
  assumes "\<forall>n. dial w n (Net s) (LdapSyncMasterAddr s) = None"
    and "\<forall>n. bind w n (LdapSyncMasterAddr s) (User s) (Pass s) \<noteq> None"
  shows "\<exists>st'. masterDelay w s q ret st = Return False st'"
proof -
  from assms(2) obtain e where
    e: "bind w (Suc (length (net st))) (LdapSyncMasterAddr s) (User s) (Pass s) = Some e"
    by auto
  from assms(1) have d: "dial w (length (net st)) (Net s) (LdapSyncMasterAddr s) = None"
    by simp
  from queryMasterContext_bind_fails [OF d e] show ?thesis
    by (simp add: masterDelay_def)
qed




section \<open>The initial catalog\<close>

lemma staticLabelsValid_operations_world:
  "staticLabelsValid operations_world example_scraper 0"
  by (simp add: staticLabelsValid_def operations_world_def queries_init_def dnLabelsValid_def
      monitoredInfo_def monitorCounter_def monitorOpCompleted_def upt_rec opsBaseDN_def
      baseDN_const_def GetAttributeValue_def utf8_ValidString_literals)

text \<open>
  Claim C9, as amended. The initial catalog has four descriptors, the third and the
  fourth are equal, and three are distinct. Take a loop over a catalog that starts with
  the initial one, where the answers to its four searches have a DN that is valid UTF-8
  on every entry whose attribute is a number. The loop makes the four searches first,
  the search for the operations twice, and after them the operation gauge of each entry
  of the second answer holds the second answer's value (for distinct DNs and a value
  that parses), whatever the first answer wrote.
\<close>

theorem C9_duplicate_operation_query:
  "length queries_init = 4 \<and> queries_init ! 2 = queries_init ! 3
   \<and> length (remdups queries_init) = 3
   \<and> (queries st = queries_init @ rest \<and> staticLabelsValid w s (length (net st)) \<longrightarrow>
        (\<exists>r st4.
           scrape_loop w s [0..<length (queries st)] ret st
             = scrape_loop w s [4..<length (queries st)] r st4
           \<and> net st4 = net st @
               [EvSearch (Addr s) baseDN_const (objectClass monitoredObject) monitoredInfo,
                EvSearch (Addr s) baseDN_const (objectClass monitorCounterObject) monitorCounter,
                EvSearch (Addr s) opsBaseDN (objectClass monitorOperation) monitorOpCompleted,
                EvSearch (Addr s) opsBaseDN (objectClass monitorOperation) monitorOpCompleted]
           \<and> (\<forall>es e v.
                 search w (length (net st) + 3) (Addr s) opsBaseDN
                   (objectClass monitorOperation) monitorOpCompleted = Inr es
                 \<and> distinct (map DN es) \<and> e \<in> set es
                 \<and> GetAttributeValue e monitorOpCompleted \<noteq> []
                 \<and> ParseFloat (GetAttributeValue e monitorOpCompleted) = (v, None) \<longrightarrow>
                 gauges st4 (monitorOperationGauge, [DN e]) = Some v)))"
proof (intro conjI impI)
  show "length queries_init = 4" "queries_init ! 2 = queries_init ! 3"
    "length (remdups queries_init) = 3"
    by (simp_all add: queries_init_def baseDN_const_def opsBaseDN_def monitoredInfo_def
        monitorCounter_def monitorOpCompleted_def)
next
  assume a: "queries st = queries_init @ rest \<and> staticLabelsValid w s (length (net st))"
  then have q: "queries st = queries_init @ rest"
    and v: "staticLabelsValid w s (length (net st))" by simp_all
  from scrape_loop_static_prefix [OF q v, of ret] obtain r st3 st4 where
    loop: "scrape_loop w s [0..<length (queries st)] ret st
             = scrape_loop w s [4..<length (queries st)] r st4"
    and net4: "net st4 = net st @
             [EvSearch (Addr s) baseDN_const (objectClass monitoredObject) monitoredInfo,
              EvSearch (Addr s) baseDN_const (objectClass monitorCounterObject) monitorCounter,
              EvSearch (Addr s) opsBaseDN (objectClass monitorOperation) monitorOpCompleted,
              EvSearch (Addr s) opsBaseDN (objectClass monitorOperation) monitorOpCompleted]"
    and last: "\<forall>es. search w (length (net st) + 3) (Addr s) opsBaseDN
               (objectClass monitorOperation) monitorOpCompleted = Inr es \<longrightarrow>
          setValue es (queries_init ! 3) st3 = Ret st4"
    by (elim exE conjE)
  show "\<exists>r st4.
           scrape_loop w s [0..<length (queries st)] ret st
             = scrape_loop w s [4..<length (queries st)] r st4
           \<and> net st4 = net st @
               [EvSearch (Addr s) baseDN_const (objectClass monitoredObject) monitoredInfo,
                EvSearch (Addr s) baseDN_const (objectClass monitorCounterObject) monitorCounter,
                EvSearch (Addr s) opsBaseDN (objectClass monitorOperation) monitorOpCompleted,
                EvSearch (Addr s) opsBaseDN (objectClass monitorOperation) monitorOpCompleted]
           \<and> (\<forall>es e v.
                 search w (length (net st) + 3) (Addr s) opsBaseDN
                   (objectClass monitorOperation) monitorOpCompleted = Inr es
                 \<and> distinct (map DN es) \<and> e \<in> set es
                 \<and> GetAttributeValue e monitorOpCompleted \<noteq> []
                 \<and> ParseFloat (GetAttributeValue e monitorOpCompleted) = (v, None) \<longrightarrow>
                 gauges st4 (monitorOperationGauge, [DN e]) = Some v)"
  proof (intro exI conjI allI impI)
    show "scrape_loop w s [0..<length (queries st)] ret st
             = scrape_loop w s [4..<length (queries st)] r st4"
      by (rule loop)
    show "net st4 = net st @
             [EvSearch (Addr s) baseDN_const (objectClass monitoredObject) monitoredInfo,
              EvSearch (Addr s) baseDN_const (objectClass monitorCounterObject) monitorCounter,
              EvSearch (Addr s) opsBaseDN (objectClass monitorOperation) monitorOpCompleted,
              EvSearch (Addr s) opsBaseDN (objectClass monitorOperation) monitorOpCompleted]"
      by (rule net4)
  next
    fix es e v
    assume h: "search w (length (net st) + 3) (Addr s) opsBaseDN
                   (objectClass monitorOperation) monitorOpCompleted = Inr es
                 \<and> distinct (map DN es) \<and> e \<in> set es
                 \<and> GetAttributeValue e monitorOpCompleted \<noteq> []
                 \<and> ParseFloat (GetAttributeValue e monitorOpCompleted) = (v, None)"
    from last h have st4: "setValue es (queries_init ! 3) st3 = Ret st4" by simp
    have f: "searchAttr (queries_init ! 3) = monitorOpCompleted"
      "metric (queries_init ! 3) = monitorOperationGauge"
      by (simp_all add: queries_init_fields)
    from setValue_last_write [OF st4, of e v] h
    show "gauges st4 (monitorOperationGauge, [DN e]) = Some v" by (simp add: f)
  qed
qed

theorem C9_duplicate_operation_query_witness:
  "\<exists>r st4. scrape_loop operations_world example_scraper [0..<4] True init_state = Ret (r, st4)
     \<and> net st4 =
         [EvSearch ''localhost:389'' ''cn=Monitor'' ''(objectClass=monitoredObject)''
            ''monitoredInfo'',
          EvSearch ''localhost:389'' ''cn=Monitor'' ''(objectClass=monitorCounterObject)''
            ''monitorCounter'',
          EvSearch ''localhost:389'' ''cn=Operations,cn=Monitor''
            ''(objectClass=monitorOperation)'' ''monitorOpCompleted'',
          EvSearch ''localhost:389'' ''cn=Operations,cn=Monitor''
            ''(objectClass=monitorOperation)'' ''monitorOpCompleted'']
     \<and> gauges st4 (monitorOperationGauge, [''cn=Bind,cn=Operations,cn=Monitor'']) = Some (Fin 5)"
proof -
  let ?e = "\<lparr>DN = ''cn=Bind,cn=Operations,cn=Monitor'',
             Attributes = [(''monitorOpCompleted'', [''5''])]\<rparr>"
  have q: "queries init_state = queries_init @ []" by (simp add: init_state_def)
  have n: "length (net init_state) = 0" by (simp add: init_state_def)
  have len: "length (queries init_state) = 4" by (simp add: init_state_def queries_init_def)
  have v: "staticLabelsValid operations_world example_scraper (length (net init_state))"
    by (simp only: n staticLabelsValid_operations_world)
  note th = C9_duplicate_operation_query [of init_state "[]" operations_world example_scraper True]
  from th have "queries init_state = queries_init @ []
        \<and> staticLabelsValid operations_world example_scraper (length (net init_state)) \<longrightarrow>
        (\<exists>r st4.
           scrape_loop operations_world example_scraper [0..<length (queries init_state)] True
             init_state
             = scrape_loop operations_world example_scraper [4..<length (queries init_state)] r st4
           \<and> net st4 = net init_state @
               [EvSearch (Addr example_scraper) baseDN_const (objectClass monitoredObject)
                  monitoredInfo,
                EvSearch (Addr example_scraper) baseDN_const (objectClass monitorCounterObject)
                  monitorCounter,
                EvSearch (Addr example_scraper) opsBaseDN (objectClass monitorOperation)
                  monitorOpCompleted,
                EvSearch (Addr example_scraper) opsBaseDN (objectClass monitorOperation)
                  monitorOpCompleted]
           \<and> (\<forall>es e v.
                 search operations_world (length (net init_state) + 3) (Addr example_scraper)
                   opsBaseDN (objectClass monitorOperation) monitorOpCompleted = Inr es
                 \<and> distinct (map DN es) \<and> e \<in> set es
                 \<and> GetAttributeValue e monitorOpCompleted \<noteq> []
                 \<and> ParseFloat (GetAttributeValue e monitorOpCompleted) = (v, None) \<longrightarrow>
                 gauges st4 (monitorOperationGauge, [DN e]) = Some v))"
    by (elim conjE)
  from this [rule_format, OF conjI [OF q v]]
  obtain r st4 where
    loop: "scrape_loop operations_world example_scraper [0..<length (queries init_state)] True
             init_state
           = scrape_loop operations_world example_scraper [4..<length (queries init_state)] r st4"
    and net4: "net st4 = net init_state @
               [EvSearch (Addr example_scraper) baseDN_const (objectClass monitoredObject)
                  monitoredInfo,
                EvSearch (Addr example_scraper) baseDN_const (objectClass monitorCounterObject)
                  monitorCounter,
                EvSearch (Addr example_scraper) opsBaseDN (objectClass monitorOperation)
                  monitorOpCompleted,
                EvSearch (Addr example_scraper) opsBaseDN (objectClass monitorOperation)
                  monitorOpCompleted]"
    and over: "\<forall>es e v.
                 search operations_world (length (net init_state) + 3) (Addr example_scraper)
                   opsBaseDN (objectClass monitorOperation) monitorOpCompleted = Inr es
                 \<and> distinct (map DN es) \<and> e \<in> set es
                 \<and> GetAttributeValue e monitorOpCompleted \<noteq> []
                 \<and> ParseFloat (GetAttributeValue e monitorOpCompleted) = (v, None) \<longrightarrow>
                 gauges st4 (monitorOperationGauge, [DN e]) = Some v"
    by (elim exE conjE)
  have s: "search operations_world (length (net init_state) + 3) (Addr example_scraper)
             opsBaseDN (objectClass monitorOperation) monitorOpCompleted = Inr [?e]"
    by (simp add: operations_world_def init_state_def opsBaseDN_def)
  have g: "GetAttributeValue ?e monitorOpCompleted = ''5''"
    by (simp add: GetAttributeValue_def monitorOpCompleted_def)
  from over [rule_format, of "[?e]" ?e "Fin 5"] s g ParseFloat_5
  have "gauges st4 (monitorOperationGauge, [DN ?e]) = Some (Fin 5)"
    by simp
  moreover have "scrape_loop operations_world example_scraper [0..<4] True init_state = Ret (r, st4)"
    using loop by (simp add: len)
  ultimately show ?thesis
    using net4
    by (simp add: init_state_def example_scraper_def baseDN_const_def opsBaseDN_def
        objectClass_def monitoredObject_def monitoredInfo_def monitorCounterObject_def
        monitorCounter_def monitorOperation_def monitorOpCompleted_def)
qed

text \<open>
  Claim C9 as it is stated: the entry that the search for the operations finds has a
  number for its attribute and a DN that is not valid UTF-8. The metrics library panics
  on that label value when the first of the two searches is published, and the second
  search is never made.
\<close>

theorem C9_counterexample:
  "\<not> utf8_ValidString [CHR 0xFF]
   \<and> outcome (scrape_loop bad_dn_world example_scraper [0, 1] True init_state) =
       Ret (True,
            [EvSearch ''localhost:389'' ''cn=Monitor'' ''(objectClass=monitoredObject)''
               ''monitoredInfo'',
             EvSearch ''localhost:389'' ''cn=Monitor'' ''(objectClass=monitorCounterObject)''
               ''monitorCounter''])
   \<and> outcome (scrape_loop bad_dn_world example_scraper [0, 1, 2] True init_state) = Panic
   \<and> outcome (scrape bad_dn_world example_scraper init_state) = Panic"
  by code_simp

end
